theory Spec2Isabelle
  imports Main "HOL-Library.Sublist"
begin

section \<open>Python text\<close>

text \<open>
  A Python \<^verbatim>\<open>str\<close> is a sequence of Unicode code points, so it is modelled as a list of
  natural numbers. ASCII literals of the source are written \<open>u ''...''\<close>; the other
  characters (the double quote, the line feed, the characters of the section headings) are
  written as their code points.
\<close>

type_synonym pystr = "nat list"

definition u :: "string \<Rightarrow> pystr" where
  "u s = map of_char s"

text \<open>\<^verbatim>\<open>sub in s\<close> on strings: \<open>sub\<close> occurs in \<open>s\<close> as a contiguous block.\<close>

definition py_in :: "pystr \<Rightarrow> pystr \<Rightarrow> bool" where
  "py_in sub s = sublist sub s"

text \<open>
  \<^verbatim>\<open>s.replace(old, new)\<close> for a non-empty \<open>old\<close> (both call sites of the source pass a
  non-empty literal): the occurrences of \<open>old\<close> are replaced from the left, without
  overlap. The counter says how many characters of a matched occurrence are still to be
  skipped.
\<close>

fun replace_go :: "pystr \<Rightarrow> pystr \<Rightarrow> nat \<Rightarrow> pystr \<Rightarrow> pystr" where
  "replace_go old new k [] = []"
| "replace_go old new (Suc k) (c # cs) = replace_go old new k cs"
| "replace_go old new 0 (c # cs) =
     (if prefix old (c # cs) then new @ replace_go old new (length old - 1) cs
      else c # replace_go old new 0 cs)"

definition py_replace :: "pystr \<Rightarrow> pystr \<Rightarrow> pystr \<Rightarrow> pystr" where
  "py_replace old new s = replace_go old new 0 s"

text \<open>
  \<^verbatim>\<open>s.split(sep)\<close> for a non-empty \<open>sep\<close>: the pieces between the occurrences of
  \<open>sep\<close>, found from the left without overlap. \<open>cur\<close> holds the current piece, reversed.
\<close>

fun split_go :: "pystr \<Rightarrow> nat \<Rightarrow> pystr \<Rightarrow> pystr \<Rightarrow> pystr list" where
  "split_go sep k cur [] = [rev cur]"
| "split_go sep (Suc k) cur (c # cs) = split_go sep k cur cs"
| "split_go sep 0 cur (c # cs) =
     (if prefix sep (c # cs) then rev cur # split_go sep (length sep - 1) [] cs
      else split_go sep 0 (c # cur) cs)"

definition py_split :: "pystr \<Rightarrow> pystr \<Rightarrow> pystr list" where
  "py_split sep s = split_go sep 0 [] s"

text \<open>
  \<^verbatim>\<open>s.splitlines()\<close>: a line ends at LF, VT, FF, FS, GS, RS, NEL, LS, PS, at CR, or at
  CR LF taken together; the line ends are dropped and no empty line is produced after the
  last line end.
\<close>

definition is_linebreak :: "nat \<Rightarrow> bool" where
  "is_linebreak c \<longleftrightarrow> c \<in> {10, 11, 12, 13, 28, 29, 30, 133, 8232, 8233}"

fun splitlines_go :: "pystr \<Rightarrow> pystr \<Rightarrow> pystr list" where
  "splitlines_go cur [] = (if cur = [] then [] else [rev cur])"
| "splitlines_go cur (c # cs) =
     (if c = 13 then
        (case cs of
           [] \<Rightarrow> rev cur # splitlines_go [] cs
         | d # ds \<Rightarrow> if d = 10 then rev cur # splitlines_go [] ds
                     else rev cur # splitlines_go [] cs)
      else if is_linebreak c then rev cur # splitlines_go [] cs
      else splitlines_go (c # cur) cs)"

definition py_splitlines :: "pystr \<Rightarrow> pystr list" where
  "py_splitlines s = splitlines_go [] s"

text \<open>
  \<^verbatim>\<open>s.strip()\<close> removes the leading and trailing white space, which for Python is the
  set of code points below.
\<close>

definition py_isspace :: "nat \<Rightarrow> bool" where
  "py_isspace c \<longleftrightarrow>
     (9 \<le> c \<and> c \<le> 13) \<or> (28 \<le> c \<and> c \<le> 32) \<or> c = 133 \<or> c = 160 \<or> c = 5760 \<or>
     (8192 \<le> c \<and> c \<le> 8202) \<or> c = 8232 \<or> c = 8233 \<or> c = 8239 \<or> c = 8287 \<or> c = 12288"

definition py_strip :: "pystr \<Rightarrow> pystr" where
  "py_strip s = rev (dropWhile py_isspace (rev (dropWhile py_isspace s)))"

text \<open>\<^verbatim>\<open>str(n)\<close> of an integer: its decimal digits, with a minus sign when negative.\<close>

fun dec_nat :: "nat \<Rightarrow> pystr" where
  "dec_nat n = (if n < 10 then [48 + n] else dec_nat (n div 10) @ [48 + n mod 10])"

declare dec_nat.simps [simp del]

definition dec_int :: "int \<Rightarrow> pystr" where
  "dec_int i = (if i < 0 then 45 # dec_nat (nat (- i)) else dec_nat (nat i))"

section \<open>JSON values\<close>

text \<open>
  The values that \<^verbatim>\<open>json.loads\<close> produces and \<^verbatim>\<open>json.dumps\<close> consumes. A Python
  \<^verbatim>\<open>dict\<close> keeps its insertion order, so it is an association list (with distinct keys).
  A float is kept as the text it was read from: no definition below computes with its
  value.
\<close>

datatype json =
    JNull
  | JBool bool
  | JInt int
  | JFloat pystr
  | JStr pystr
  | JList "json list"
  | JDict "(pystr \<times> json) list"

type_synonym pydict = "(pystr \<times> json) list"

text \<open>\<^verbatim>\<open>d.get(k)\<close>: \<open>None\<close> of the model stands for the missing key.\<close>

definition dict_get :: "pydict \<Rightarrow> pystr \<Rightarrow> json option" where
  "dict_get d k = map_of d k"

section \<open>The local heuristic\<close>

text \<open>
  Lines 90 to 94 of \<^verbatim>\<open>simulate_analysis\<close>: the code is the text between the first two
  triple quotes of the prompt, and empty when the prompt has no triple quote.
\<close>

definition triple_quote :: pystr where
  "triple_quote = [34, 34, 34]"

definition extract_code :: "pystr \<Rightarrow> pystr" where
  "extract_code prompt =
     (if py_in triple_quote prompt then
        (let parts = py_split triple_quote prompt
         in if length parts \<ge> 2 then parts ! 1 else [])
      else [])"

text \<open>Line 103: the test applied to each line.\<close>

definition zero_div_line :: "pystr \<Rightarrow> bool" where
  "zero_div_line line \<longleftrightarrow>
     py_in (u ''/ 0'') line \<or> py_in (u ''/0'') (py_replace (u '' '') [] line)"

text \<open>Lines 104 to 114: what one matching line appends to the three lists.\<close>

definition issue_entry :: "int \<Rightarrow> json" where
  "issue_entry idx = JDict
     [(u ''line'', JInt idx),
      (u ''severity'', JStr (u ''high'')),
      (u ''title'', JStr (u ''ZeroDivisionError possible'')),
      (u ''description'',
         JStr (u ''Division by zero detected. This will raise an exception at runtime.''))]"

definition suggestion_entry :: json where
  "suggestion_entry = JStr (u ''Check for division by zero before performing division.'')"

definition fix_patch :: pystr where
  "fix_patch = u ''if b != 0:'' @ [10] @ u ''    result = a / b'' @ [10] @ u ''else:'' @ [10]
     @ u ''    result = None  # handle error''"

definition fix_entry :: json where
  "fix_entry = JDict
     [(u ''description'', JStr (u ''Add check for zero denominator'')),
      (u ''patch'', JStr fix_patch)]"

text \<open>
  Lines 102 to 114: the loop over \<^verbatim>\<open>enumerate(lines, start=1)\<close>, passing the three lists
  \<^verbatim>\<open>issues\<close>, \<^verbatim>\<open>suggestions\<close> and \<^verbatim>\<open>auto_fixes\<close> along.
\<close>

fun scan_lines :: "int \<Rightarrow> pystr list \<Rightarrow> json list \<times> json list \<times> json list
    \<Rightarrow> json list \<times> json list \<times> json list" where
  "scan_lines idx [] acc = acc"
| "scan_lines idx (line # rest) (issues, suggestions, auto_fixes) =
     (if zero_div_line line
      then scan_lines (idx + 1) rest
             (issues @ [issue_entry idx], suggestions @ [suggestion_entry],
              auto_fixes @ [fix_entry])
      else scan_lines (idx + 1) rest (issues, suggestions, auto_fixes))"

text \<open>Lines 96 to 127: the dictionary \<^verbatim>\<open>simulated\<close> built from the extracted code.\<close>

definition no_issues_sentence :: pystr where
  "no_issues_sentence = u '' No obvious runtime errors detected.''"

definition simulated :: "pystr \<Rightarrow> pydict" where
  "simulated code =
     (let (issues, suggestions, auto_fixes) = scan_lines 1 (py_splitlines code) ([], [], []);
          summary = u ''Simulated analysis (LLM not available).'';
          summary = (if issues = [] then summary @ no_issues_sentence else summary)
      in [(u ''summary'', JStr summary),
          (u ''issues'', JList issues),
          (u ''suggestions'', JList suggestions),
          (u ''automatic_fixes'', JList auto_fixes),
          (u ''effort_estimate'', JStr (u ''5-15 minutes'')),
          (u ''docs_updates'', JList [JStr (u ''Add README section describing usage.'')]),
          (u ''metadata'',
             JDict [(u ''language'', JStr (u ''python'')),
                    (u ''analysis_time'', JStr (u ''simulated''))])])"

text \<open>Reading a key of a value that is expected to be a dictionary.\<close>

definition json_get :: "json \<Rightarrow> pystr \<Rightarrow> json option" where
  "json_get v k = (case v of JDict d \<Rightarrow> dict_get d k | _ \<Rightarrow> None)"


section \<open>The JSON library\<close>

text \<open>
  \<^verbatim>\<open>d[k] = v\<close>: a key already present keeps its position and takes the new value, a new
  key goes to the end.
\<close>

fun dict_set :: "pydict \<Rightarrow> pystr \<Rightarrow> json \<Rightarrow> pydict" where
  "dict_set [] k v = [(k, v)]"
| "dict_set ((k', v') # d) k v = (if k' = k then (k, v) # d else (k', v') # dict_set d k v)"

text \<open>The dictionary built from the members of a JSON object, in the order read.\<close>

definition dict_of_pairs :: "(pystr \<times> json) list \<Rightarrow> pydict" where
  "dict_of_pairs ps = foldl (\<lambda>d (k, v). dict_set d k v) [] ps"

subsection \<open>Serialising: \<^verbatim>\<open>json.dumps\<close>\<close>

text \<open>
  \<^verbatim>\<open>json.dumps\<close> with its default arguments: the separators are \<^verbatim>\<open>", "\<close> and
  \<^verbatim>\<open>": "\<close>, and every character outside the printable ASCII range is escaped
  (\<^verbatim>\<open>ensure_ascii\<close>), one beyond the basic plane as a surrogate pair.
\<close>

definition hex_digit :: "nat \<Rightarrow> nat" where
  "hex_digit d = (if d < 10 then 48 + d else 87 + d)"

definition hex4 :: "nat \<Rightarrow> pystr" where
  "hex4 n = [hex_digit (n div 4096 mod 16), hex_digit (n div 256 mod 16),
             hex_digit (n div 16 mod 16), hex_digit (n mod 16)]"

definition escape_char :: "nat \<Rightarrow> pystr" where
  "escape_char c =
     (if c = 92 then [92, 92]
      else if c = 34 then [92, 34]
      else if c = 8 then [92, 98]
      else if c = 12 then [92, 102]
      else if c = 10 then [92, 110]
      else if c = 13 then [92, 114]
      else if c = 9 then [92, 116]
      else if 32 \<le> c \<and> c \<le> 126 then [c]
      else if c < 65536 then [92, 117] @ hex4 c
      else [92, 117] @ hex4 (55296 + (c - 65536) div 1024 mod 1024)
           @ [92, 117] @ hex4 (56320 + (c - 65536) mod 1024))"

definition dumps_str :: "pystr \<Rightarrow> pystr" where
  "dumps_str s = [34] @ concat (map escape_char s) @ [34]"

fun join_sep :: "pystr \<Rightarrow> pystr list \<Rightarrow> pystr" where
  "join_sep sep [] = []"
| "join_sep sep [x] = x"
| "join_sep sep (x # y # ys) = x @ sep @ join_sep sep (y # ys)"

text \<open>
  The program serialises one value only, the dictionary of the heuristic, which holds no
  float; a float is written back as the text it was read from.
\<close>

fun dumps :: "json \<Rightarrow> pystr" where
  "dumps JNull = u ''null''"
| "dumps (JBool b) = (if b then u ''true'' else u ''false'')"
| "dumps (JInt i) = dec_int i"
| "dumps (JFloat l) = l"
| "dumps (JStr s) = dumps_str s"
| "dumps (JList vs) = [91] @ join_sep (u '', '') (map dumps vs) @ [93]"
| "dumps (JDict kvs) =
     [123] @ join_sep (u '', '') (map (\<lambda>kv. dumps_str (fst kv) @ u '': '' @ dumps (snd kv)) kvs)
     @ [125]"

subsection \<open>Parsing: \<^verbatim>\<open>json.loads\<close>\<close>

text \<open>
  The decoder of the standard library, on a \<^verbatim>\<open>str\<close>: white space is space, tab, line
  feed and carriage return; strings are read in strict mode (no raw control character);
  a number without fraction and exponent is an integer; \<^verbatim>\<open>NaN\<close>, \<^verbatim>\<open>Infinity\<close> and
  \<^verbatim>\<open>-Infinity\<close> are accepted. \<open>None\<close> stands for the decoder raising an error. The
  interpreter's limits (recursion depth, digits of an integer) are not modelled.
\<close>

definition is_ws :: "nat \<Rightarrow> bool" where
  "is_ws c \<longleftrightarrow> c = 32 \<or> c = 9 \<or> c = 10 \<or> c = 13"

definition skip_ws :: "pystr \<Rightarrow> pystr" where
  "skip_ws s = dropWhile is_ws s"

definition is_digit :: "nat \<Rightarrow> bool" where
  "is_digit c \<longleftrightarrow> 48 \<le> c \<and> c \<le> 57"

definition hex_val :: "nat \<Rightarrow> nat option" where
  "hex_val c =
     (if 48 \<le> c \<and> c \<le> 57 then Some (c - 48)
      else if 97 \<le> c \<and> c \<le> 102 then Some (c - 87)
      else if 65 \<le> c \<and> c \<le> 70 then Some (c - 55)
      else None)"

fun hex4_val :: "pystr \<Rightarrow> nat option" where
  "hex4_val [a, b, c, d] =
     (case (hex_val a, hex_val b, hex_val c, hex_val d) of
        (Some x, Some y, Some z, Some w) \<Rightarrow> Some (4096 * x + 256 * y + 16 * z + w)
      | _ \<Rightarrow> None)"
| "hex4_val _ = None"

definition unescape :: "nat \<Rightarrow> nat option" where
  "unescape e =
     (if e = 34 then Some 34
      else if e = 92 then Some 92
      else if e = 47 then Some 47
      else if e = 98 then Some 8
      else if e = 102 then Some 12
      else if e = 110 then Some 10
      else if e = 114 then Some 13
      else if e = 116 then Some 9
      else None)"

text \<open>
  The body of a string, after its opening quote: the characters read so far (reversed) and
  the input. The result is the string and the input after the closing quote.
\<close>

fun scanstring :: "pystr \<Rightarrow> pystr \<Rightarrow> (pystr \<times> pystr) option" where
  "scanstring acc [] = None"
| "scanstring acc (c # cs) =
     (if c = 34 then Some (rev acc, cs)
      else if c = 92 then
        (case cs of
           [] \<Rightarrow> None
         | e # es \<Rightarrow>
             if e = 117 then
               (case hex4_val (take 4 es) of
                  None \<Rightarrow> None
                | Some h \<Rightarrow>
                    if 55296 \<le> h \<and> h \<le> 56319 \<and> take 2 (drop 4 es) = [92, 117] then
                      (case hex4_val (take 4 (drop 6 es)) of
                         None \<Rightarrow> None
                       | Some l \<Rightarrow>
                           if 56320 \<le> l \<and> l \<le> 57343
                           then scanstring ((65536 + (h - 55296) * 1024 + (l - 56320)) # acc)
                                  (drop 10 es)
                           else scanstring (h # acc) (drop 4 es))
                    else scanstring (h # acc) (drop 4 es))
             else
               (case unescape e of
                  None \<Rightarrow> None
                | Some x \<Rightarrow> scanstring (x # acc) es))
      else if c < 32 then None
      else scanstring (c # acc) cs)"

text \<open>
  A number: an optional minus sign, then \<^verbatim>\<open>0\<close> or a digit string without leading zero,
  then an optional fraction and an optional exponent, each taken only when complete.
\<close>

definition digits_val :: "pystr \<Rightarrow> nat" where
  "digits_val ds = foldl (\<lambda>a d. 10 * a + (d - 48)) 0 ds"

definition scan_int_part :: "pystr \<Rightarrow> (pystr \<times> pystr) option" where
  "scan_int_part s =
     (case s of
        [] \<Rightarrow> None
      | d # t \<Rightarrow>
          if d = 48 then Some ([48], t)
          else if is_digit d then Some (takeWhile is_digit s, dropWhile is_digit s)
          else None)"

definition scan_frac :: "pystr \<Rightarrow> pystr \<times> pystr" where
  "scan_frac s =
     (case s of
        c # d # t \<Rightarrow>
          if c = 46 \<and> is_digit d
          then (c # takeWhile is_digit (d # t), dropWhile is_digit (d # t))
          else ([], s)
      | _ \<Rightarrow> ([], s))"

definition scan_exp :: "pystr \<Rightarrow> pystr \<times> pystr" where
  "scan_exp s =
     (case s of
        [] \<Rightarrow> ([], s)
      | e # t \<Rightarrow>
          if e = 101 \<or> e = 69 then
            (let (sign, t') = (case t of
                                 [] \<Rightarrow> ([], t)
                               | c # t2 \<Rightarrow> if c = 43 \<or> c = 45 then ([c], t2) else ([], t))
             in case t' of
                  [] \<Rightarrow> ([], s)
                | d # _ \<Rightarrow>
                    if is_digit d
                    then (e # sign @ takeWhile is_digit t', dropWhile is_digit t')
                    else ([], s))
          else ([], s))"

definition scan_number :: "pystr \<Rightarrow> (json \<times> pystr) option" where
  "scan_number s =
     (let (sign, s1) = (case s of
                          [] \<Rightarrow> ([], s)
                        | c # t \<Rightarrow> if c = 45 then ([c], t) else ([], s))
      in case scan_int_part s1 of
           None \<Rightarrow> None
         | Some (ip, s2) \<Rightarrow>
             (let (frac, s3) = scan_frac s2;
                  (ex, s4) = scan_exp s3
              in if frac = [] \<and> ex = []
                 then Some (JInt (if sign = [] then int (digits_val ip)
                                  else - int (digits_val ip)), s4)
                 else Some (JFloat (sign @ ip @ frac @ ex), s4)))"

text \<open>The values that are neither a string, an object nor an array, in the decoder's order.\<close>

definition scan_constant :: "pystr \<Rightarrow> (json \<times> pystr) option" where
  "scan_constant s =
     (if prefix (u ''null'') s then Some (JNull, drop 4 s)
      else if prefix (u ''true'') s then Some (JBool True, drop 4 s)
      else if prefix (u ''false'') s then Some (JBool False, drop 5 s)
      else (case scan_number s of
              Some r \<Rightarrow> Some r
            | None \<Rightarrow>
                if prefix (u ''NaN'') s then Some (JFloat (u ''NaN''), drop 3 s)
                else if prefix (u ''Infinity'') s then Some (JFloat (u ''Infinity''), drop 8 s)
                else if prefix (u ''-Infinity'') s then Some (JFloat (u ''-Infinity''), drop 9 s)
                else None))"

text \<open>
  A value, the elements of an array after the first has been found to exist, and the
  members of an object from a key on. The two loops go on with the input left by the value
  just read; the tests that this input is shorter (it always is) make the recursion
  well-founded.
\<close>

function parse_value :: "pystr \<Rightarrow> (json \<times> pystr) option"
  and parse_array :: "json list \<Rightarrow> pystr \<Rightarrow> (json \<times> pystr) option"
  and parse_object :: "(pystr \<times> json) list \<Rightarrow> pystr \<Rightarrow> (json \<times> pystr) option"
where
  "parse_value s =
     (case s of
        [] \<Rightarrow> None
      | c # t \<Rightarrow>
          if c = 34 then
            (case scanstring [] t of
               None \<Rightarrow> None
             | Some (x, r) \<Rightarrow> Some (JStr x, r))
          else if c = 123 then
            (case skip_ws t of
               [] \<Rightarrow> None
             | d # r \<Rightarrow>
                 if d = 125 then Some (JDict [], r)
                 else if d = 34 then parse_object [] (skip_ws t)
                 else None)
          else if c = 91 then
            (case skip_ws t of
               [] \<Rightarrow> None
             | d # r \<Rightarrow>
                 if d = 93 then Some (JList [], r)
                 else parse_array [] (skip_ws t))
          else scan_constant s)"
| "parse_array acc s =
     (case parse_value s of
        None \<Rightarrow> None
      | Some (v, r) \<Rightarrow>
          if length r < length s then
            (case skip_ws r of
               [] \<Rightarrow> None
             | d # r' \<Rightarrow>
                 if d = 93 then Some (JList (rev (v # acc)), r')
                 else if d = 44 then parse_array (v # acc) (skip_ws r')
                 else None)
          else None)"
| "parse_object acc s =
     (case s of
        [] \<Rightarrow> None
      | q # t \<Rightarrow>
          if q \<noteq> 34 then None
          else
            (case scanstring [] t of
               None \<Rightarrow> None
             | Some (k, r1) \<Rightarrow>
                 (case skip_ws r1 of
                    [] \<Rightarrow> None
                  | c # r2 \<Rightarrow>
                      if c \<noteq> 58 then None
                      else if length (skip_ws r2) < length s then
                        (case parse_value (skip_ws r2) of
                           None \<Rightarrow> None
                         | Some (v, r4) \<Rightarrow>
                             if length r4 < length (skip_ws r2) then
                               (case skip_ws r4 of
                                  [] \<Rightarrow> None
                                | d # r5 \<Rightarrow>
                                    if d = 125
                                    then Some (JDict (dict_of_pairs (rev ((k, v) # acc))), r5)
                                    else if d = 44
                                    then parse_object ((k, v) # acc) (skip_ws r5)
                                    else None)
                             else None)
                      else None)))"
  by pat_completeness auto

termination
proof (relation "measure (\<lambda>x. case x of
          Inl s \<Rightarrow> 2 * length s
        | Inr (Inl (acc, s)) \<Rightarrow> 2 * length s + 1
        | Inr (Inr (acc, s)) \<Rightarrow> 2 * length s + 1)", goal_cases)
  case 1
  then show ?case by simp
next
  case (2 s c t d r)
  then show ?case using length_dropWhile_le [of is_ws t] by (simp add: skip_ws_def)
next
  case (3 s c t d r)
  then show ?case using length_dropWhile_le [of is_ws t] by (simp add: skip_ws_def)
next
  case (4 acc s)
  then show ?case by simp
next
  case (5 acc s x v r d r')
  then show ?case
    using length_dropWhile_le [of is_ws r] length_dropWhile_le [of is_ws r']
    by (simp add: skip_ws_def)
next
  case (6 acc s q t x k r1 c r2)
  then show ?case by simp
next
  case (7 acc s q t x k r1 c r2 y v r4 d r5)
  then show ?case
    using length_dropWhile_le [of is_ws r4] length_dropWhile_le [of is_ws r5]
    by (simp add: skip_ws_def)
qed

declare parse_value.simps [simp del] parse_array.simps [simp del] parse_object.simps [simp del]

text \<open>
  \<^verbatim>\<open>json.loads(s)\<close>: a leading byte order mark is refused, and nothing but white space
  may follow the value.
\<close>

definition json_loads :: "pystr \<Rightarrow> json option" where
  "json_loads s =
     (if prefix [65279] s then None
      else (case parse_value (skip_ws s) of
              None \<Rightarrow> None
            | Some (v, r) \<Rightarrow> if skip_ws r = [] then Some v else None))"

text \<open>Lines 89 to 128, \<^verbatim>\<open>simulate_analysis\<close>: the dictionary, serialised.\<close>

definition simulate_analysis :: "pystr \<Rightarrow> pystr" where
  "simulate_analysis prompt = dumps (JDict (simulated (extract_code prompt)))"

section \<open>The prompt\<close>

text \<open>
  The request's \<^verbatim>\<open>language\<close> is an \<^verbatim>\<open>Optional[str]\<close>: \<open>None\<close> of the model is Python's
  \<^verbatim>\<open>None\<close>, which an f-string prints as \<^verbatim>\<open>None\<close> and which is \<^verbatim>\<open>null\<close> as a JSON value.
\<close>

definition opt_str :: "pystr option \<Rightarrow> pystr" where
  "opt_str x = (case x of None \<Rightarrow> u ''None'' | Some s \<Rightarrow> s)"

definition opt_json :: "pystr option \<Rightarrow> json" where
  "opt_json x = (case x of None \<Rightarrow> JNull | Some s \<Rightarrow> JStr s)"

text \<open>Lines 61 to 67, \<^verbatim>\<open>build_prompt\<close>.\<close>

definition build_prompt :: "pystr \<Rightarrow> pystr option \<Rightarrow> pystr" where
  "build_prompt code language =
     [10] @ u ''You are a senior software engineer and code reviewer. Analyze the ''
     @ opt_str language @ u '' code and return a JSON object ONLY:'' @ [10]
     @ u ''- summary, issues, suggestions, automatic_fixes, effort_estimate, docs_updates, metadata.''
     @ [10] @ u ''CODE:'' @ [10] @ triple_quote @ code @ triple_quote @ [10]"

section \<open>The formatter\<close>

text \<open>
  \<^verbatim>\<open>format_analysis\<close> receives whatever the decoder produced, so it is modelled on
  arbitrary JSON values, and the exceptions it can raise are results. Three facts about the
  interpreter's floats and containers are left open and passed as parameters: whether the
  float read from a text is non-zero, whether it is finite, and the text that \<^verbatim>\<open>str\<close>
  gives for a float, a list or a dictionary. The statements below hold for every choice of
  them.
\<close>

datatype exn = TypeError | AttributeError | ValueError | UnicodeEncodeError | OSError

record pylib =
  float_nonzero :: "pystr \<Rightarrow> bool"
  float_finite :: "pystr \<Rightarrow> bool"
  repr_of :: "json \<Rightarrow> pystr"

text \<open>The truth value of a value, as \<^verbatim>\<open>if x:\<close> tests it.\<close>

definition py_bool :: "pylib \<Rightarrow> json \<Rightarrow> bool" where
  "py_bool L v =
     (case v of
        JNull \<Rightarrow> False
      | JBool b \<Rightarrow> b
      | JInt i \<Rightarrow> i \<noteq> 0
      | JFloat l \<Rightarrow> float_nonzero L l
      | JStr s \<Rightarrow> s \<noteq> []
      | JList vs \<Rightarrow> vs \<noteq> []
      | JDict kvs \<Rightarrow> kvs \<noteq> [])"

text \<open>The text an f-string puts for a value.\<close>

definition py_str :: "pylib \<Rightarrow> json \<Rightarrow> pystr" where
  "py_str L v =
     (case v of
        JNull \<Rightarrow> u ''None''
      | JBool b \<Rightarrow> (if b then u ''True'' else u ''False'')
      | JInt i \<Rightarrow> dec_int i
      | JStr s \<Rightarrow> s
      | _ \<Rightarrow> repr_of L v)"

text \<open>
  What a \<^verbatim>\<open>for\<close> loop runs over: the elements of a list, the characters of a string, the
  keys of a dictionary; any other value is not iterable.
\<close>

definition py_iter :: "json \<Rightarrow> exn + json list" where
  "py_iter v =
     (case v of
        JList vs \<Rightarrow> Inr vs
      | JStr s \<Rightarrow> Inr (map (\<lambda>c. JStr [c]) s)
      | JDict kvs \<Rightarrow> Inr (map (\<lambda>kv. JStr (fst kv)) kvs)
      | _ \<Rightarrow> Inl TypeError)"

text \<open>\<^verbatim>\<open>d.get(k, dflt)\<close> on a dictionary, and on a value that may not be one.\<close>

definition get_or :: "pydict \<Rightarrow> pystr \<Rightarrow> json \<Rightarrow> json" where
  "get_or d k dflt = (case dict_get d k of None \<Rightarrow> dflt | Some v \<Rightarrow> v)"

definition item_get :: "json \<Rightarrow> pystr \<Rightarrow> json \<Rightarrow> exn + json" where
  "item_get item k dflt =
     (case item of JDict d \<Rightarrow> Inr (get_or d k dflt) | _ \<Rightarrow> Inl AttributeError)"

definition bind_exn :: "exn + 'a \<Rightarrow> ('a \<Rightarrow> exn + 'b) \<Rightarrow> exn + 'b" where
  "bind_exn r f = (case r of Inl e \<Rightarrow> Inl e | Inr x \<Rightarrow> f x)"

text \<open>The six headings, with the characters the source file has in front of each title.\<close>

definition h_summary :: pystr where
  "h_summary = u ''### '' @ [8218, 250, 214] @ u '' Summary'' @ [10]"

definition h_issues :: pystr where
  "h_issues = u ''### '' @ [8218, 249, 229] @ u '' Issues Found'' @ [10]"

definition h_suggestions :: pystr where
  "h_suggestions = u ''### '' @ [63743, 252, 237, 176] @ u '' Suggestions'' @ [10]"

definition h_fixes :: pystr where
  "h_fixes = u ''### '' @ [63743, 252, 245, 8224, 212, 8719, 232] @ u '' Automatic Fixes'' @ [10]"

definition h_effort :: pystr where
  "h_effort = u ''### '' @ [8218, 232, 177, 212, 8719, 232] @ u '' Estimated Effort'' @ [10]"

definition h_docs :: pystr where
  "h_docs = u ''### '' @ [63743, 252, 236, 209] @ u '' Documentation Updates'' @ [10]"

text \<open>Lines 136 to 138: the line of one issue, and the loop with its counter.\<close>

definition issue_text :: "pylib \<Rightarrow> nat \<Rightarrow> json \<Rightarrow> exn + pystr" where
  "issue_text L i issue =
     bind_exn (item_get issue (u ''line'') (JStr (u ''N/A''))) (\<lambda>line.
     bind_exn (item_get issue (u ''title'') JNull) (\<lambda>title.
     bind_exn (item_get issue (u ''severity'') JNull) (\<lambda>severity.
     bind_exn (item_get issue (u ''description'') JNull) (\<lambda>description.
       Inr (dec_nat i @ u ''. **'' @ py_str L title @ u ''** (line '' @ py_str L line
            @ u '', severity '' @ py_str L severity @ u ''): '' @ py_str L description
            @ [10])))))"

fun issues_loop :: "pylib \<Rightarrow> nat \<Rightarrow> json list \<Rightarrow> pystr \<Rightarrow> exn + pystr" where
  "issues_loop L i [] output = Inr output"
| "issues_loop L i (issue # rest) output =
     bind_exn (issue_text L i issue) (\<lambda>t. issues_loop L (i + 1) rest (output @ t))"

text \<open>Lines 142 to 143 and 154 to 155: one bullet for each element.\<close>

fun bullets_loop :: "pylib \<Rightarrow> json list \<Rightarrow> pystr \<Rightarrow> pystr" where
  "bullets_loop L [] output = output"
| "bullets_loop L (s # rest) output =
     bullets_loop L rest (output @ u ''- '' @ py_str L s @ [10])"

text \<open>Lines 147 to 148: the block of one fix, and the loop.\<close>

definition fix_text :: "pylib \<Rightarrow> json \<Rightarrow> exn + pystr" where
  "fix_text L fix =
     bind_exn (item_get fix (u ''description'') JNull) (\<lambda>description.
     bind_exn (item_get fix (u ''patch'') JNull) (\<lambda>patch.
       Inr (u ''**'' @ py_str L description @ u ''**'' @ [10] @ u ''```python'' @ [10]
            @ py_str L patch @ [10] @ u ''```'' @ [10])))"

fun fixes_loop :: "pylib \<Rightarrow> json list \<Rightarrow> pystr \<Rightarrow> exn + pystr" where
  "fixes_loop L [] output = Inr output"
| "fixes_loop L (fix # rest) output =
     bind_exn (fix_text L fix) (\<lambda>t. fixes_loop L rest (output @ t))"

text \<open>
  Lines 132 to 157: the six steps, each taking the \<^verbatim>\<open>output\<close> built so far and giving
  the one it leaves.
\<close>

definition add_summary :: "pylib \<Rightarrow> pydict \<Rightarrow> pystr \<Rightarrow> pystr" where
  "add_summary L analysis output =
     output @ h_summary @ py_str L (get_or analysis (u ''summary'') (JStr [])) @ [10, 10]"

definition add_issues :: "pylib \<Rightarrow> pydict \<Rightarrow> pystr \<Rightarrow> exn + pystr" where
  "add_issues L analysis output =
     (let issues = get_or analysis (u ''issues'') JNull
      in if py_bool L issues then
           bind_exn (py_iter issues) (\<lambda>items.
           bind_exn (issues_loop L 1 items (output @ h_issues)) (\<lambda>output.
             Inr (output @ [10])))
         else Inr output)"

definition add_suggestions :: "pylib \<Rightarrow> pydict \<Rightarrow> pystr \<Rightarrow> exn + pystr" where
  "add_suggestions L analysis output =
     (let suggestions = get_or analysis (u ''suggestions'') JNull
      in if py_bool L suggestions then
           bind_exn (py_iter suggestions) (\<lambda>items.
             Inr (bullets_loop L items (output @ h_suggestions) @ [10]))
         else Inr output)"

definition add_fixes :: "pylib \<Rightarrow> pydict \<Rightarrow> pystr \<Rightarrow> exn + pystr" where
  "add_fixes L analysis output =
     (let fixes = get_or analysis (u ''automatic_fixes'') JNull
      in if py_bool L fixes then
           bind_exn (py_iter fixes) (\<lambda>items.
           bind_exn (fixes_loop L items (output @ h_fixes)) (\<lambda>output.
             Inr (output @ [10])))
         else Inr output)"

definition add_effort :: "pylib \<Rightarrow> pydict \<Rightarrow> pystr \<Rightarrow> pystr" where
  "add_effort L analysis output =
     (let effort = get_or analysis (u ''effort_estimate'') JNull
      in if py_bool L effort then output @ h_effort @ py_str L effort @ [10, 10]
         else output)"

definition add_docs :: "pylib \<Rightarrow> pydict \<Rightarrow> pystr \<Rightarrow> exn + pystr" where
  "add_docs L analysis output =
     (let docs = get_or analysis (u ''docs_updates'') JNull
      in if py_bool L docs then
           bind_exn (py_iter docs) (\<lambda>items.
             Inr (bullets_loop L items (output @ h_docs) @ [10]))
         else Inr output)"

definition format_analysis :: "pylib \<Rightarrow> pydict \<Rightarrow> exn + pystr" where
  "format_analysis L analysis =
     bind_exn (add_issues L analysis (add_summary L analysis [])) (\<lambda>output.
     bind_exn (add_suggestions L analysis output) (\<lambda>output.
     bind_exn (add_fixes L analysis output) (\<lambda>output.
     add_docs L analysis (add_effort L analysis output))))"

section \<open>The result parser\<close>

text \<open>\<^verbatim>\<open>d.setdefault(k, v)\<close>: the dictionary it leaves.\<close>

definition setdefault :: "pydict \<Rightarrow> pystr \<Rightarrow> json \<Rightarrow> pydict" where
  "setdefault d k v = (case dict_get d k of None \<Rightarrow> d @ [(k, v)] | Some _ \<Rightarrow> d)"

text \<open>
  \<^verbatim>\<open>json.loads\<close> on the value that \<^verbatim>\<open>call_llm\<close> returned, which is a string only if the
  model server sent one: on anything else the decoder raises.
\<close>

definition py_json_loads :: "json \<Rightarrow> json option" where
  "py_json_loads raw = (case raw of JStr s \<Rightarrow> json_loads s | _ \<Rightarrow> None)"

text \<open>Lines 173 to 174: the dictionary of the \<^verbatim>\<open>except\<close> branch.\<close>

definition wrap_raw :: "json \<Rightarrow> pystr option \<Rightarrow> pydict" where
  "wrap_raw raw_response language =
     [(u ''summary'', raw_response),
      (u ''issues'', JList []),
      (u ''suggestions'', JList []),
      (u ''automatic_fixes'', JList []),
      (u ''effort_estimate'', JNull),
      (u ''docs_updates'', JList []),
      (u ''metadata'', JDict [(u ''language'', opt_json language)])]"

text \<open>
  Lines 168 to 174, given what the decoder produced. The \<^verbatim>\<open>try\<close> block also fails, and
  the \<^verbatim>\<open>except\<close> branch is taken, when the decoded value has no \<^verbatim>\<open>setdefault\<close>: when it
  is not a dictionary, or its \<^verbatim>\<open>metadata\<close> is not one.
\<close>

definition parse_decoded :: "json option \<Rightarrow> json \<Rightarrow> pystr option \<Rightarrow> pydict" where
  "parse_decoded decoded raw_response language =
     (case decoded of
        Some (JDict parsed) \<Rightarrow>
          (let parsed = setdefault parsed (u ''metadata'') (JDict [])
           in case dict_get parsed (u ''metadata'') of
                Some (JDict m) \<Rightarrow>
                  dict_set parsed (u ''metadata'')
                    (JDict (setdefault m (u ''language'') (opt_json language)))
              | _ \<Rightarrow> wrap_raw raw_response language)
      | _ \<Rightarrow> wrap_raw raw_response language)"

definition parse_response :: "json \<Rightarrow> pystr option \<Rightarrow> pydict" where
  "parse_response raw_response language =
     parse_decoded (py_json_loads raw_response) raw_response language"

section \<open>The request handler\<close>

text \<open>\<^verbatim>\<open>os.path.join\<close> of a directory and a file name, on a POSIX system.\<close>

definition path_join :: "pystr \<Rightarrow> pystr \<Rightarrow> pystr" where
  "path_join d f =
     (if f \<noteq> [] \<and> hd f = 47 then f
      else if d = [] \<or> last d = 47 then d @ f
      else d @ [47] @ f)"

text \<open>Lines 55 to 58, the request model.\<close>

record code_request =
  code :: pystr
  language :: "pystr option"
  request_pdf :: "bool option"

text \<open>
  What lies outside the program. \<open>remote\<close> is the outcome of lines 73 to 83 for a prompt:
  either some step raised (no connection, a time-out, an error status, a body that is not
  a JSON object), or the value found under \<^verbatim>\<open>completion\<close>, the empty string when the key
  is missing. \<open>pdf_available\<close> is the flag of lines 14 to 18, \<open>pdf_renders\<close> tells whether
  lines 182 to 186 succeed on a text, \<open>tmpdir\<close> and \<open>pid\<close> are what
  \<^verbatim>\<open>tempfile.gettempdir()\<close> and \<^verbatim>\<open>os.getpid()\<close> return, and \<open>can_open\<close> tells whether
  \<^verbatim>\<open>open(path, "w")\<close> of line 191 succeeds for a path (it does not when the directory
  of the path does not exist).
\<close>

datatype remote_reply = Call_failed | Completion json

record env =
  remote :: "pystr \<Rightarrow> remote_reply"
  pdf_available :: bool
  pdf_renders :: "pystr \<Rightarrow> bool"
  tmpdir :: pystr
  pid :: nat
  can_open :: "pystr \<Rightarrow> bool"
  lib :: pylib

text \<open>
  The effects of a request: the prompts posted to the model server, the warnings printed,
  and the files written.
\<close>

datatype warning = Llm_call_failed | Pdf_generation_failed

datatype file_content = Pdf_of pystr | Text_of pystr

record world =
  posted :: "pystr list"
  printed :: "warning list"
  files :: "pystr \<Rightarrow> file_content option"

text \<open>Lines 70 to 86, \<^verbatim>\<open>call_llm\<close>.\<close>

definition call_llm :: "env \<Rightarrow> pystr \<Rightarrow> world \<Rightarrow> json \<times> world" where
  "call_llm E prompt w =
     (let w = w\<lparr>posted := posted w @ [prompt]\<rparr>
      in case remote E prompt of
           Completion text \<Rightarrow> (text, w)
         | Call_failed \<Rightarrow>
             (JStr (simulate_analysis prompt), w\<lparr>printed := printed w @ [Llm_call_failed]\<rparr>))"

text \<open>
  What the handler gives back: the \<^verbatim>\<open>HTTPException\<close> it raises, a \<^verbatim>\<open>JSONResponse\<close> with
  its content, a \<^verbatim>\<open>FileResponse\<close> with path, media type and file name, or an exception
  that nothing catches, which the framework answers with status 500.
\<close>

datatype response =
    Http_exception nat pystr
  | Json_response json
  | File_response pystr pystr pystr
  | Unhandled exn

definition status_code :: "response \<Rightarrow> nat" where
  "status_code r =
     (case r of
        Http_exception n _ \<Rightarrow> n
      | Json_response _ \<Rightarrow> 200
      | File_response _ _ _ \<Rightarrow> 200
      | Unhandled _ \<Rightarrow> 500)"

text \<open>Lines 165 to 174: from the request to the dictionary \<^verbatim>\<open>parsed\<close>.\<close>

definition analysed :: "env \<Rightarrow> code_request \<Rightarrow> world \<Rightarrow> pydict \<times> world" where
  "analysed E req w =
     (let prompt = build_prompt (code req) (language req);
          (raw_response, w) = call_llm E prompt w
      in (parse_response raw_response (language req), w))"

text \<open>
  Encoding a text as UTF-8, which writing the text file (line 192) and rendering the JSON
  response (line 195) both do, raises \<^verbatim>\<open>UnicodeEncodeError\<close> when the text holds a
  surrogate code point.
\<close>

definition is_surrogate :: "nat \<Rightarrow> bool" where
  "is_surrogate c \<longleftrightarrow> 55296 \<le> c \<and> c \<le> 57343"

definition encodable :: "pystr \<Rightarrow> bool" where
  "encodable s = (\<not> list_ex is_surrogate s)"

text \<open>
  \<^verbatim>\<open>JSONResponse(content)\<close> serialises the content at once, with \<^verbatim>\<open>allow_nan=False\<close>
  and \<^verbatim>\<open>ensure_ascii=False\<close>, and encodes the result as UTF-8: a float that is not
  finite raises \<^verbatim>\<open>ValueError\<close> during serialisation, and a surrogate in a string or a
  key raises \<^verbatim>\<open>UnicodeEncodeError\<close> when the serialised text is encoded.
\<close>

fun has_nonfinite :: "pylib \<Rightarrow> json \<Rightarrow> bool" where
  "has_nonfinite L (JFloat l) = (\<not> float_finite L l)"
| "has_nonfinite L (JList vs) = list_ex (has_nonfinite L) vs"
| "has_nonfinite L (JDict kvs) = list_ex (\<lambda>kv. has_nonfinite L (snd kv)) kvs"
| "has_nonfinite L v = False"

fun has_surrogate :: "json \<Rightarrow> bool" where
  "has_surrogate (JStr s) = list_ex is_surrogate s"
| "has_surrogate (JList vs) = list_ex has_surrogate vs"
| "has_surrogate (JDict kvs) =
     list_ex (\<lambda>kv. list_ex is_surrogate (fst kv) \<or> has_surrogate (snd kv)) kvs"
| "has_surrogate v = False"

definition json_response :: "pylib \<Rightarrow> json \<Rightarrow> response" where
  "json_response L content =
     (if has_nonfinite L content then Unhandled ValueError
      else if has_surrogate content then Unhandled UnicodeEncodeError
      else Json_response content)"

text \<open>
  Lines 178 to 195: the response, once the text \<^verbatim>\<open>formatted\<close> exists. The text file is
  opened, which empties it, before the text is encoded and written.
\<close>

definition respond :: "env \<Rightarrow> code_request \<Rightarrow> pydict \<Rightarrow> pystr \<Rightarrow> world \<Rightarrow> response \<times> world"
  where
  "respond E req parsed formatted w =
     (if request_pdf req = Some True then
        (let tmp_file = path_join (tmpdir E) (u ''analysis_'' @ dec_nat (pid E) @ u ''.pdf'')
         in if pdf_available E \<and> pdf_renders E formatted then
              (File_response tmp_file (u ''application/pdf'') (u ''analysis.pdf''),
               w\<lparr>files := (files w)(tmp_file \<mapsto> Pdf_of formatted)\<rparr>)
            else
              (let w = (if pdf_available E
                        then w\<lparr>printed := printed w @ [Pdf_generation_failed]\<rparr> else w);
                   txt_file = py_replace (u ''.pdf'') (u ''.txt'') tmp_file
               in if \<not> can_open E txt_file then (Unhandled OSError, w)
                  else if \<not> encodable formatted then
                    (Unhandled UnicodeEncodeError,
                     w\<lparr>files := (files w)(txt_file \<mapsto> Text_of [])\<rparr>)
                  else
                    (File_response txt_file (u ''text/plain'') (u ''analysis.txt''),
                     w\<lparr>files := (files w)(txt_file \<mapsto> Text_of formatted)\<rparr>)))
      else
        (json_response (lib E) (JDict [(u ''formatted_analysis'', JStr formatted),
                                       (u ''raw'', JDict parsed)]), w))"

text \<open>Lines 160 to 195, \<^verbatim>\<open>analyze_code\<close>.\<close>

definition analyze_code :: "env \<Rightarrow> code_request \<Rightarrow> world \<Rightarrow> response \<times> world" where
  "analyze_code E req w =
     (if py_strip (code req) = [] then (Http_exception 400 (u ''No code provided.''), w)
      else
        (let (parsed, w) = analysed E req w
         in case format_analysis (lib E) parsed of
              Inl e \<Rightarrow> (Unhandled e, w)
            | Inr formatted \<Rightarrow> respond E req parsed formatted w))"

subsection \<open>An environment for the examples\<close>

text \<open>
  The examples below need a concrete environment: the reply of the model server and the
  flag of the PDF library are given, rendering fails, every path can be opened, and the
  open facts about floats and containers are fixed arbitrarily (no example contains a float
  or prints a list).
\<close>

definition demo_lib :: pylib where
  "demo_lib = \<lparr>float_nonzero = (\<lambda>l. True), float_finite = (\<lambda>l. True), repr_of = (\<lambda>v. [])\<rparr>"

definition demo_env :: "remote_reply \<Rightarrow> bool \<Rightarrow> env" where
  "demo_env reply pdf =
     \<lparr>remote = (\<lambda>prompt. reply), pdf_available = pdf, pdf_renders = (\<lambda>text. False),
      tmpdir = u ''/tmp'', pid = 4242, can_open = (\<lambda>path. True), lib = demo_lib\<rparr>"

definition no_effects :: world where
  "no_effects = \<lparr>posted = [], printed = [], files = (\<lambda>p. None)\<rparr>"

section \<open>Values that survive serialisation\<close>

text \<open>
  The values for which decoding the serialised text is shown to give the value back: no
  float, distinct keys in every dictionary, and only printable ASCII characters or the
  control characters with a short escape in strings and keys. The dictionary of the
  heuristic is of this kind.
\<close>

definition plain_char :: "nat \<Rightarrow> bool" where
  "plain_char c \<longleftrightarrow> (32 \<le> c \<and> c \<le> 126) \<or> c = 8 \<or> c = 9 \<or> c = 10 \<or> c = 12 \<or> c = 13"

fun plain :: "json \<Rightarrow> bool" where
  "plain JNull = True"
| "plain (JBool b) = True"
| "plain (JInt i) = True"
| "plain (JFloat l) = False"
| "plain (JStr s) = (\<forall>c \<in> set s. plain_char c)"
| "plain (JList vs) = (\<forall>v \<in> set vs. plain v)"
| "plain (JDict kvs) =
     (distinct (map fst kvs)
      \<and> (\<forall>kv \<in> set kvs. (\<forall>c \<in> set (fst kv). plain_char c) \<and> plain (snd kv)))"

text \<open>
  The input that follows a serialised value inside a larger one: nothing, a comma, or a
  closing bracket or brace.
\<close>

definition at_delim :: "pystr \<Rightarrow> bool" where
  "at_delim rest = (case rest of [] \<Rightarrow> True | c # _ \<Rightarrow> c = 44 \<or> c = 93 \<or> c = 125)"

text \<open>
  The text of one member of a serialised dictionary.
\<close>

definition member_text :: "pystr \<times> json \<Rightarrow> pystr" where
  "member_text kv = dumps_str (fst kv) @ u '': '' @ dumps (snd kv)"

section \<open>Vocabulary of the statements\<close>

text \<open>
  Whether a decoded value already carries a language: it is a dictionary whose
  \<^verbatim>\<open>metadata\<close> is a dictionary with the key \<^verbatim>\<open>language\<close>.
\<close>

definition sets_language :: "json \<Rightarrow> bool" where
  "sets_language v =
     (case v of
        JDict d \<Rightarrow>
          (case dict_get d (u ''metadata'') of
             Some (JDict m) \<Rightarrow> dict_get m (u ''language'') \<noteq> None
           | _ \<Rightarrow> False)
      | _ \<Rightarrow> False)"

text \<open>
  The pieces of the formatted text as the specification describes them: the numbered line
  of an issue, a bullet, and the block of a fix. The formatter is compared with them.
\<close>

definition issue_line :: "pylib \<Rightarrow> nat \<Rightarrow> pydict \<Rightarrow> pystr" where
  "issue_line L n d =
     dec_nat n @ u ''. **'' @ py_str L (get_or d (u ''title'') JNull) @ u ''** (line ''
     @ py_str L (get_or d (u ''line'') (JStr (u ''N/A''))) @ u '', severity ''
     @ py_str L (get_or d (u ''severity'') JNull) @ u ''): ''
     @ py_str L (get_or d (u ''description'') JNull) @ [10]"

definition bullet :: "pylib \<Rightarrow> json \<Rightarrow> pystr" where
  "bullet L v = u ''- '' @ py_str L v @ [10]"

definition fix_block :: "pylib \<Rightarrow> pydict \<Rightarrow> pystr" where
  "fix_block L d =
     u ''**'' @ py_str L (get_or d (u ''description'') JNull) @ u ''**'' @ [10]
     @ u ''```python'' @ [10] @ py_str L (get_or d (u ''patch'') JNull) @ [10]
     @ u ''```'' @ [10]"

text \<open>
  Three inputs used in examples: a completion that is valid JSON with a list of strings
  for \<^verbatim>\<open>issues\<close>; an analysis whose four lists are empty and whose effort estimate is
  not; and a function with a docstring that divides by zero.
\<close>

definition bad_completion :: pystr where
  "bad_completion = u ''{'' @ [34] @ u ''issues'' @ [34] @ u '': ['' @ [34]
     @ u ''division by zero'' @ [34] @ u '']}''"

definition effort_only :: pydict where
  "effort_only =
     [(u ''summary'', JStr (u ''ok'')),
      (u ''issues'', JList []),
      (u ''suggestions'', JList []),
      (u ''automatic_fixes'', JList []),
      (u ''effort_estimate'', JStr (u ''1 hour'')),
      (u ''docs_updates'', JList []),
      (u ''metadata'', JDict [])]"

definition docstring_code :: pystr where
  "docstring_code = u ''def f(a):'' @ [10] @ u ''    '' @ [34, 34, 34] @ u ''Divide.''
     @ [34, 34, 34] @ [10] @ u ''    return a / 0''"

section \<open>Properties of the heuristic scan\<close>

lemma replace_go_single: "replace_go [c] [] 0 s = filter (\<lambda>x. x \<noteq> c) s"
  by (induction s) auto

lemma py_replace_space: "py_replace (u '' '') [] s = filter (\<lambda>x. x \<noteq> 32) s"
  by (simp add: py_replace_def u_def replace_go_single)

lemma slash_zero_nospace:
  assumes "py_in (u ''/ 0'') line"
  shows "py_in (u ''/0'') (py_replace (u '' '') [] line)"
proof -
  from assms obtain ps ss where "line = ps @ [47, 32, 48] @ ss"
    by (auto simp: py_in_def sublist_def u_def)
  then have "filter (\<lambda>x. x \<noteq> 32) line
      = filter (\<lambda>x. x \<noteq> 32) ps @ [47, 48] @ filter (\<lambda>x. x \<noteq> 32) ss"
    by simp
  then show ?thesis
    unfolding py_in_def py_replace_space by (simp add: u_def sublist_def) blast
qed

lemma zero_div_line_iff:
  "zero_div_line line \<longleftrightarrow> py_in (u ''/0'') (py_replace (u '' '') [] line)"
  unfolding zero_div_line_def using slash_zero_nospace by blast

lemma scan_lines_no_match:
  "\<forall>l \<in> set ls. \<not> zero_div_line l \<Longrightarrow> scan_lines idx ls acc = acc"
  by (induction idx ls acc rule: scan_lines.induct) auto

lemma scan_lines_one_match:
  assumes "k < length ls" "zero_div_line (ls ! k)"
    and "\<forall>j < length ls. j \<noteq> k \<longrightarrow> \<not> zero_div_line (ls ! j)"
  shows "scan_lines idx ls (is, ss, fs)
    = (is @ [issue_entry (idx + int k)], ss @ [suggestion_entry], fs @ [fix_entry])"
  using assms
proof (induction ls arbitrary: idx k)
  case Nil
  then show ?case by simp
next
  case (Cons l ls)
  show ?case
  proof (cases k)
    case 0
    have "\<forall>x \<in> set ls. \<not> zero_div_line x"
    proof
      fix x assume "x \<in> set ls"
      then obtain j where j: "j < length ls" "ls ! j = x" by (auto simp: in_set_conv_nth)
      with Cons.prems(3) [rule_format, of "Suc j"] 0 show "\<not> zero_div_line x" by auto
    qed
    with Cons.prems 0 show ?thesis by (simp add: scan_lines_no_match)
  next
    case (Suc k')
    from Cons.prems(3) [rule_format, of 0] Suc have h: "\<not> zero_div_line l" by simp
    have r: "\<forall>j < length ls. j \<noteq> k' \<longrightarrow> \<not> zero_div_line (ls ! j)"
    proof (intro allI impI)
      fix j assume "j < length ls" "j \<noteq> k'"
      with Cons.prems(3) [rule_format, of "Suc j"] Suc show "\<not> zero_div_line (ls ! j)" by auto
    qed
    from Cons.prems Suc have "k' < length ls" "zero_div_line (ls ! k')" by auto
    from Cons.IH [OF this r, of "idx + 1"] h Suc show ?thesis by (simp add: algebra_simps)
  qed
qed

lemmas str_eval = u_def py_in_def sublist_code prefix_code py_splitlines_def is_linebreak_def
  py_replace_def zero_div_line_def

lemma issue_entry_fields:
  "json_get (issue_entry n) (u ''line'') = Some (JInt n)"
  "json_get (issue_entry n) (u ''severity'') = Some (JStr (u ''high''))"
  by (simp_all add: json_get_def issue_entry_def dict_get_def u_def)

text \<open>
  The scan on a text \<open>src\<close>, whatever its origin. With exactly one matching line, at position
  \<open>k\<close> counted from 0, the \<^verbatim>\<open>issues\<close> list has one entry, for line \<open>k + 1\<close> and of severity
  \<^verbatim>\<open>high\<close>. With no matching line the list is empty and the summary ends with the no-issues
  sentence. The text the heuristic scans is the one it extracts from the prompt; the
  sections on the prompt below relate it to the code of the request.
\<close>

lemma scan_one_match:
  assumes "k < length (py_splitlines src)"
    and "zero_div_line (py_splitlines src ! k)"
    and "\<forall>j < length (py_splitlines src). j \<noteq> k \<longrightarrow> \<not> zero_div_line (py_splitlines src ! j)"
  shows "\<exists>issue. dict_get (simulated src) (u ''issues'') = Some (JList [issue])
           \<and> json_get issue (u ''line'') = Some (JInt (int k + 1))
           \<and> json_get issue (u ''severity'') = Some (JStr (u ''high''))"
proof -
  have "dict_get (simulated src) (u ''issues'') = Some (JList [issue_entry (int k + 1)])"
    using scan_lines_one_match [OF assms, of 1 "[]" "[]" "[]"]
    by (simp add: simulated_def dict_get_def u_def add.commute)
  then show ?thesis using issue_entry_fields by blast
qed

lemma scan_no_match:
  assumes "\<forall>line \<in> set (py_splitlines src).
             \<not> py_in (u '' / 0'') line
           \<and> \<not> py_in (u ''/0'') (py_replace (u '' '') [] line)"
  shows "dict_get (simulated src) (u ''issues'') = Some (JList [])
       \<and> (\<exists>s. dict_get (simulated src) (u ''summary'') = Some (JStr s)
              \<and> suffix no_issues_sentence s)"
proof -
  from assms have "\<forall>line \<in> set (py_splitlines src). \<not> zero_div_line line"
    by (simp add: zero_div_line_iff)
  then have "scan_lines 1 (py_splitlines src) ([], [], []) = ([], [], [])"
    by (rule scan_lines_no_match)
  then show ?thesis
    by (simp add: simulated_def dict_get_def u_def suffix_def)
qed

section \<open>A completion that the formatter cannot print\<close>

lemmas json_eval = json_loads_def skip_ws_def is_ws_def parse_value.simps parse_array.simps
  parse_object.simps scan_constant_def scan_number_def scan_int_part_def scan_frac_def
  scan_exp_def is_digit_def digits_val_def dict_of_pairs_def unescape_def prefix_code u_def

lemma bad_decodes:
  "json_loads bad_completion = Some (JDict [(u ''issues'', JList [JStr (u ''division by zero'')])])"
  by (simp add: bad_completion_def json_eval)

lemma py_strip_blank: "py_strip s = [] \<longleftrightarrow> (\<forall>c \<in> set s. py_isspace c)"
proof (cases "dropWhile py_isspace s")
  case Nil
  then have "\<forall>c \<in> set s. py_isspace c" by (simp add: dropWhile_eq_Nil_conv)
  then show ?thesis unfolding py_strip_def Nil by simp
next
  case (Cons x xs)
  then have "\<not> py_isspace x" using hd_dropWhile [of py_isspace s] by simp
  moreover have "\<not> (\<forall>c \<in> set s. py_isspace c)"
    using Cons dropWhile_eq_Nil_conv [of py_isspace s] by auto
  ultimately show ?thesis using Cons by (auto simp: py_strip_def dropWhile_eq_Nil_conv)
qed

lemmas dict_eval = dict_get_def get_or_def setdefault_def u_def

lemma bad_parsed:
  "parse_response (JStr bad_completion) lang =
     [(u ''issues'', JList [JStr (u ''division by zero'')]),
      (u ''metadata'', JDict [(u ''language'', opt_json lang)])]"
  by (simp add: parse_response_def py_json_loads_def bad_decodes parse_decoded_def dict_eval)

lemma bad_format:
  "format_analysis L [(u ''issues'', JList [JStr (u ''division by zero'')]),
      (u ''metadata'', JDict [(u ''language'', opt_json lang)])] = Inl AttributeError"
  by (simp add: format_analysis_def add_issues_def add_summary_def dict_eval py_bool_def
      py_iter_def bind_exn_def issue_text_def item_get_def)

text \<open>
  Claim C1 (a defect of the code). The model server answers with a completion that is
  valid JSON but gives a list of strings for \<^verbatim>\<open>issues\<close>. The code is not blank and no PDF
  is requested, yet the formatter raises outside every \<^verbatim>\<open>try\<close> block and the request ends
  with status 500.
\<close>

theorem schema_invalid_completion_unhandled:
  "fst (analyze_code (demo_env (Completion (JStr bad_completion)) False)
         \<lparr>code = u ''x = 1'', language = Some (u ''python''), request_pdf = Some False\<rparr>
         no_effects) = Unhandled AttributeError
   \<and> status_code (fst (analyze_code (demo_env (Completion (JStr bad_completion)) False)
         \<lparr>code = u ''x = 1'', language = Some (u ''python''), request_pdf = Some False\<rparr>
         no_effects)) = 500"
proof -
  have "py_strip (u ''x = 1'') \<noteq> []"
    by (simp add: py_strip_blank py_isspace_def u_def)
  then show ?thesis
    by (simp add: analyze_code_def analysed_def call_llm_def demo_env_def bad_parsed bad_format
        status_code_def)
qed

section \<open>The handler on blank code\<close>

text \<open>
  Claim C2. When the code is empty or consists of white space only, the handler raises the
  HTTP exception with status 400 and leaves the world as it was: nothing was posted to the
  model server, nothing printed, no file written. The answer does not depend on the
  environment, so no provider took part in it.
\<close>

theorem blank_code_rejected:
  assumes "\<forall>c \<in> set (code req). py_isspace c"
  shows "analyze_code E req w = (Http_exception 400 (u ''No code provided.''), w)
       \<and> status_code (fst (analyze_code E req w)) = 400"
  using assms by (simp add: analyze_code_def py_strip_blank status_code_def)

theorem blank_code_rejected_witness:
  "analyze_code (demo_env Call_failed True)
     \<lparr>code = [32, 9, 10], language = Some (u ''python''), request_pdf = Some True\<rparr> no_effects
     = (Http_exception 400 (u ''No code provided.''), no_effects)
   \<and> status_code (fst (analyze_code (demo_env Call_failed True)
        \<lparr>code = [32, 9, 10], language = Some (u ''python''), request_pdf = Some True\<rparr>
        no_effects)) = 400"
proof -
  have "\<forall>c \<in> set (code \<lparr>code = [32, 9, 10], language = Some (u ''python''),
          request_pdf = Some True\<rparr>). py_isspace c"
    by (simp add: py_isspace_def)
  from blank_code_rejected [OF this] show ?thesis .
qed

section \<open>The result parser\<close>

lemma dict_get_dict_set: "dict_get (dict_set d k v) k = Some v"
  by (induction d) (auto simp: dict_get_def)

lemma dict_get_setdefault_new: "dict_get d k = None \<Longrightarrow> dict_get (setdefault d k v) k = Some v"
  by (simp add: setdefault_def dict_get_def map_add_def)

lemma dict_get_setdefault_old: "dict_get d k = Some x \<Longrightarrow> setdefault d k v = d"
  by (simp add: setdefault_def)

lemma wrap_raw_fields:
  "dict_get (wrap_raw raw lang) (u ''summary'') = Some raw"
  "dict_get (wrap_raw raw lang) (u ''issues'') = Some (JList [])"
  "dict_get (wrap_raw raw lang) (u ''suggestions'') = Some (JList [])"
  "dict_get (wrap_raw raw lang) (u ''automatic_fixes'') = Some (JList [])"
  "dict_get (wrap_raw raw lang) (u ''effort_estimate'') = Some JNull"
  "dict_get (wrap_raw raw lang) (u ''docs_updates'') = Some (JList [])"
  "dict_get (wrap_raw raw lang) (u ''metadata'') = Some (JDict [(u ''language'', opt_json lang)])"
  by (simp_all add: wrap_raw_def dict_get_def u_def)

lemma parse_decoded_metadata:
  "\<exists>m. dict_get (parse_decoded (Some v) raw lang) (u ''metadata'') = Some (JDict m)
       \<and> (\<not> sets_language v \<longrightarrow> dict_get m (u ''language'') = Some (opt_json lang))"
proof (cases v)
  case (JDict d)
  show ?thesis
  proof (cases "dict_get d (u ''metadata'')")
    case None
    then have "dict_get (setdefault d (u ''metadata'') (JDict [])) (u ''metadata'')
        = Some (JDict [])"
      by (rule dict_get_setdefault_new)
    then have "parse_decoded (Some v) raw lang
        = dict_set (setdefault d (u ''metadata'') (JDict [])) (u ''metadata'')
            (JDict [(u ''language'', opt_json lang)])"
      by (simp add: parse_decoded_def JDict setdefault_def [of "[]"] dict_get_def [of "[]"])
    then show ?thesis
      by (simp add: dict_get_dict_set) (simp add: dict_get_def)
  next
    case (Some x)
    then have sd: "setdefault d (u ''metadata'') (JDict []) = d"
      by (rule dict_get_setdefault_old)
    show ?thesis
    proof (cases x)
      case (JDict m)
      have "parse_decoded (Some v) raw lang
          = dict_set d (u ''metadata'') (JDict (setdefault m (u ''language'') (opt_json lang)))"
        by (simp add: parse_decoded_def \<open>v = JDict d\<close> sd Some JDict)
      moreover have "\<not> sets_language v
          \<Longrightarrow> dict_get (setdefault m (u ''language'') (opt_json lang)) (u ''language'')
             = Some (opt_json lang)"
        by (simp add: sets_language_def \<open>v = JDict d\<close> Some JDict dict_get_setdefault_new)
      ultimately show ?thesis by (simp add: dict_get_dict_set)
    qed (simp_all add: parse_decoded_def \<open>v = JDict d\<close> sd Some wrap_raw_fields,
         simp_all add: dict_get_def)
  qed
qed (simp_all add: parse_decoded_def wrap_raw_fields, simp_all add: dict_get_def)

text \<open>
  Claim C6. For every text of the provider: if it decodes as JSON, the result has a
  \<^verbatim>\<open>metadata\<close> dictionary, whose \<^verbatim>\<open>language\<close> is the language of the request unless the
  decoded value had set one; if decoding fails, the summary of the result is the text
  itself and \<^verbatim>\<open>issues\<close>, \<^verbatim>\<open>suggestions\<close>, \<^verbatim>\<open>automatic_fixes\<close> and
  \<^verbatim>\<open>docs_updates\<close> are empty lists.
\<close>

theorem parse_response_contract:
  "(json_loads text = Some v \<longrightarrow>
      (\<exists>m. dict_get (parse_response (JStr text) lang) (u ''metadata'') = Some (JDict m)
         \<and> (\<not> sets_language v \<longrightarrow> dict_get m (u ''language'') = Some (opt_json lang))))
   \<and> (json_loads text = None \<longrightarrow>
        dict_get (parse_response (JStr text) lang) (u ''summary'') = Some (JStr text)
      \<and> dict_get (parse_response (JStr text) lang) (u ''issues'') = Some (JList [])
      \<and> dict_get (parse_response (JStr text) lang) (u ''suggestions'') = Some (JList [])
      \<and> dict_get (parse_response (JStr text) lang) (u ''automatic_fixes'') = Some (JList [])
      \<and> dict_get (parse_response (JStr text) lang) (u ''docs_updates'') = Some (JList []))"
  using parse_decoded_metadata [of v "JStr text" lang]
  by (auto simp: parse_response_def py_json_loads_def parse_decoded_def wrap_raw_fields)

lemma empty_object_decodes: "json_loads (u ''{}'') = Some (JDict [])"
  by (simp add: json_eval)

lemma not_json_fails: "json_loads (u ''not json'') = None"
  by (simp add: json_eval)

theorem parse_response_contract_witness:
  "(\<exists>m. dict_get (parse_response (JStr (u ''{}'')) (Some (u ''go''))) (u ''metadata'')
          = Some (JDict m)
        \<and> dict_get m (u ''language'') = Some (JStr (u ''go'')))
   \<and> dict_get (parse_response (JStr (u ''not json'')) (Some (u ''go''))) (u ''summary'')
        = Some (JStr (u ''not json''))
   \<and> dict_get (parse_response (JStr (u ''not json'')) (Some (u ''go''))) (u ''issues'')
        = Some (JList [])"
proof -
  have a: "\<not> sets_language (JDict [])"
    by (simp add: sets_language_def dict_get_def)
  from parse_response_contract [of "u ''{}''" "JDict []" "Some (u ''go'')"]
       parse_response_contract [of "u ''not json''" JNull "Some (u ''go'')"]
       empty_object_decodes not_json_fails a
  show ?thesis by (simp add: opt_json_def)
qed

section \<open>The text file in place of the PDF\<close>

text \<open>
  A request asks for a PDF, its code is not blank, and the formatter has returned the text
  \<open>formatted\<close>. When the PDF library is missing or rendering fails, and the text file can be
  opened and \<open>formatted\<close> can be encoded, the response is a file of type \<^verbatim>\<open>text/plain\<close> named
  \<^verbatim>\<open>analysis.txt\<close>, and the file it points to holds exactly \<open>formatted\<close>.
\<close>

lemma text_file_when_pdf_fails:
  assumes "py_strip (code req) \<noteq> []"
    and "request_pdf req = Some True"
    and "analysed E req w = (parsed, w')"
    and "format_analysis (lib E) parsed = Inr formatted"
    and "\<not> pdf_available E \<or> \<not> pdf_renders E formatted"
    and "can_open E (py_replace (u ''.pdf'') (u ''.txt'')
           (path_join (tmpdir E) (u ''analysis_'' @ dec_nat (pid E) @ u ''.pdf'')))"
    and "encodable formatted"
  shows "\<exists>path. fst (analyze_code E req w)
             = File_response path (u ''text/plain'') (u ''analysis.txt'')
           \<and> files (snd (analyze_code E req w)) path = Some (Text_of formatted)"
  using assms by (auto simp: analyze_code_def respond_def Let_def)

section \<open>The sections of the formatted text\<close>

lemma issue_text_dict: "issue_text L n (JDict d) = Inr (issue_line L n d)"
  by (simp add: issue_text_def issue_line_def item_get_def bind_exn_def)

lemma issues_loop_dicts:
  "issues_loop L i (map JDict ds) out
     = Inr (out @ concat (map (\<lambda>(n, d). issue_line L n d) (enumerate i ds)))"
  by (induction ds arbitrary: i out) (simp_all add: issue_text_dict bind_exn_def)

lemma bullets_loop_eq: "bullets_loop L vs out = out @ concat (map (bullet L) vs)"
  by (induction vs arbitrary: out) (simp_all add: bullet_def)

lemma fix_text_dict: "fix_text L (JDict d) = Inr (fix_block L d)"
  by (simp add: fix_text_def fix_block_def item_get_def bind_exn_def)

lemma fixes_loop_dicts:
  "fixes_loop L (map JDict fs) out = Inr (out @ concat (map (fix_block L) fs))"
  by (induction fs arbitrary: out) (simp_all add: fix_text_dict bind_exn_def)

lemma format_analysis_sections:
  assumes "dict_get a (u ''issues'') = Some (JList (map JDict is))"
    and "dict_get a (u ''suggestions'') = Some (JList ss)"
    and "dict_get a (u ''automatic_fixes'') = Some (JList (map JDict fs))"
    and "dict_get a (u ''docs_updates'') = Some (JList ds)"
  shows "format_analysis L a = Inr
     (h_summary @ py_str L (get_or a (u ''summary'') (JStr [])) @ [10, 10]
      @ (if is = [] then []
         else h_issues @ concat (map (\<lambda>(n, d). issue_line L n d) (enumerate 1 is)) @ [10])
      @ (if ss = [] then [] else h_suggestions @ concat (map (bullet L) ss) @ [10])
      @ (if fs = [] then [] else h_fixes @ concat (map (fix_block L) fs) @ [10])
      @ (if py_bool L (get_or a (u ''effort_estimate'') JNull)
         then h_effort @ py_str L (get_or a (u ''effort_estimate'') JNull) @ [10, 10]
         else [])
      @ (if ds = [] then [] else h_docs @ concat (map (bullet L) ds) @ [10]))"
  using assms
  by (simp add: format_analysis_def add_summary_def add_issues_def add_suggestions_def
      add_fixes_def add_effort_def add_docs_def get_or_def py_bool_def py_iter_def
      bind_exn_def issues_loop_dicts bullets_loop_eq fixes_loop_dicts Let_def)

text \<open>
  Claim C7 as stated fails: the four lists of this analysis are empty, and the output still
  has the section Estimated Effort after the summary.
\<close>

theorem effort_section_counterexample:
  "dict_get effort_only (u ''issues'') = Some (JList [])
   \<and> dict_get effort_only (u ''suggestions'') = Some (JList [])
   \<and> dict_get effort_only (u ''automatic_fixes'') = Some (JList [])
   \<and> dict_get effort_only (u ''docs_updates'') = Some (JList [])
   \<and> format_analysis demo_lib effort_only
       = Inr (h_summary @ u ''ok'' @ [10, 10] @ h_effort @ u ''1 hour'' @ [10, 10])
   \<and> format_analysis demo_lib effort_only \<noteq> Inr (h_summary @ u ''ok'' @ [10, 10])"
proof -
  have g: "dict_get effort_only (u ''issues'') = Some (JList (map JDict []))"
    "dict_get effort_only (u ''suggestions'') = Some (JList [])"
    "dict_get effort_only (u ''automatic_fixes'') = Some (JList (map JDict []))"
    "dict_get effort_only (u ''docs_updates'') = Some (JList [])"
    "get_or effort_only (u ''effort_estimate'') JNull = JStr (u ''1 hour'')"
    "get_or effort_only (u ''summary'') (JStr []) = JStr (u ''ok'')"
    by (simp_all add: effort_only_def dict_get_def get_or_def u_def)
  have "u ''1 hour'' \<noteq> []" by (simp add: u_def)
  with format_analysis_sections [OF g(1-4), of demo_lib] g
  show ?thesis by (simp add: py_bool_def py_str_def h_effort_def)
qed

text \<open>
  Claim C7, amended. For an analysis whose \<^verbatim>\<open>issues\<close> and \<^verbatim>\<open>automatic_fixes\<close> are lists
  of dictionaries and whose \<^verbatim>\<open>suggestions\<close> and \<^verbatim>\<open>docs_updates\<close> are lists, the output is
  the Summary section, always, followed in this order by Issues Found, Suggestions,
  Automatic Fixes, Estimated Effort and Documentation Updates, where a list section is
  left out exactly when its list is empty and Estimated Effort exactly when the estimate
  is empty or absent. So with the four lists empty the output is the Summary section alone
  only if there is no effort estimate either.
\<close>

theorem format_analysis_section_order:
  assumes "dict_get a (u ''issues'') = Some (JList (map JDict is))"
    and "dict_get a (u ''suggestions'') = Some (JList ss)"
    and "dict_get a (u ''automatic_fixes'') = Some (JList (map JDict fs))"
    and "dict_get a (u ''docs_updates'') = Some (JList ds)"
  shows "format_analysis L a = Inr
     (h_summary @ py_str L (get_or a (u ''summary'') (JStr [])) @ [10, 10]
      @ (if is = [] then []
         else h_issues @ concat (map (\<lambda>(n, d). issue_line L n d) (enumerate 1 is)) @ [10])
      @ (if ss = [] then [] else h_suggestions @ concat (map (bullet L) ss) @ [10])
      @ (if fs = [] then [] else h_fixes @ concat (map (fix_block L) fs) @ [10])
      @ (if py_bool L (get_or a (u ''effort_estimate'') JNull)
         then h_effort @ py_str L (get_or a (u ''effort_estimate'') JNull) @ [10, 10]
         else [])
      @ (if ds = [] then [] else h_docs @ concat (map (bullet L) ds) @ [10]))
    \<and> (is = [] \<and> ss = [] \<and> fs = [] \<and> ds = []
         \<and> \<not> py_bool L (get_or a (u ''effort_estimate'') JNull)
       \<longrightarrow> format_analysis L a
             = Inr (h_summary @ py_str L (get_or a (u ''summary'') (JStr [])) @ [10, 10]))"
  using format_analysis_sections [OF assms, of L] by simp

theorem format_analysis_section_order_witness:
  "format_analysis demo_lib (wrap_raw (JStr (u ''hello'')) None)
     = Inr (h_summary @ u ''hello'' @ [10, 10])"
proof -
  let ?a = "wrap_raw (JStr (u ''hello'')) None"
  have g: "dict_get ?a (u ''issues'') = Some (JList (map JDict []))"
    "dict_get ?a (u ''suggestions'') = Some (JList [])"
    "dict_get ?a (u ''automatic_fixes'') = Some (JList (map JDict []))"
    "dict_get ?a (u ''docs_updates'') = Some (JList [])"
    by (simp_all add: wrap_raw_fields)
  have e: "get_or ?a (u ''effort_estimate'') JNull = JNull"
    "get_or ?a (u ''summary'') (JStr []) = JStr (u ''hello'')"
    by (simp_all add: get_or_def wrap_raw_fields)
  from format_analysis_section_order [OF g, of demo_lib] e
  show ?thesis by (simp add: py_bool_def py_str_def)
qed

section \<open>Prompt and heuristic together\<close>

text \<open>
  Claim C9 (a defect of the code). The code of this request has a docstring. The heuristic
  takes from the prompt only the text before the docstring, so the third line, which
  divides by zero, is never scanned and no issue is reported.
\<close>

theorem docstring_truncates_code:
  "extract_code (build_prompt docstring_code (Some (u ''python'')))
     = u ''def f(a):'' @ [10] @ u ''    ''
   \<and> zero_div_line (py_splitlines docstring_code ! 2)
   \<and> dict_get (simulated (extract_code (build_prompt docstring_code (Some (u ''python'')))))
        (u ''issues'') = Some (JList [])"
proof -
  have x: "extract_code (build_prompt docstring_code (Some (u ''python'')))
     = u ''def f(a):'' @ [10] @ u ''    ''"
    by (simp add: extract_code_def build_prompt_def docstring_code_def triple_quote_def
        opt_str_def py_split_def str_eval)
  have y: "zero_div_line (py_splitlines docstring_code ! 2)"
    by (simp add: docstring_code_def str_eval)
  have z: "dict_get (simulated (u ''def f(a):'' @ [10] @ u ''    '')) (u ''issues'')
      = Some (JList [])"
    by (simp add: simulated_def dict_get_def str_eval)
  from x y z show ?thesis by simp
qed

section \<open>Decoding what the heuristic serialised\<close>

lemma scanstring_escaped:
  "\<forall>c \<in> set s. plain_char c \<Longrightarrow>
   scanstring acc (concat (map escape_char s) @ 34 # rest) = Some (rev acc @ s, rest)"
  by (induction s arbitrary: acc) (auto simp: escape_char_def unescape_def plain_char_def)

lemma dec_nat_nonempty: "dec_nat n \<noteq> []"
  by (subst dec_nat.simps) simp

lemma dec_nat_digits: "\<forall>d \<in> set (dec_nat n). is_digit d"
proof (induction n rule: dec_nat.induct)
  case (1 n)
  show ?case
  proof (cases "n < 10")
    case True
    then show ?thesis by (subst dec_nat.simps) (simp add: is_digit_def)
  next
    case False
    have "n mod 10 < 10" by simp
    then have "is_digit (48 + n mod 10)" unfolding is_digit_def by linarith
    with 1 False show ?thesis by (subst dec_nat.simps) simp
  qed
qed

lemma digits_val_snoc: "digits_val (ds @ [d]) = 10 * digits_val ds + (d - 48)"
  by (simp add: digits_val_def)

lemma digits_val_dec_nat: "digits_val (dec_nat n) = n"
proof (induction n rule: dec_nat.induct)
  case (1 n)
  show ?case
  proof (cases "n < 10")
    case True
    then show ?thesis by (subst dec_nat.simps) (simp add: digits_val_def)
  next
    case False
    with 1 show ?thesis by (subst dec_nat.simps) (simp add: digits_val_snoc)
  qed
qed

lemma dec_nat_zero: "dec_nat 0 = [48]"
  by (subst dec_nat.simps) simp

lemma dec_nat_hd: "0 < n \<Longrightarrow> hd (dec_nat n) \<noteq> 48"
proof (induction n rule: dec_nat.induct)
  case (1 n)
  show ?case
  proof (cases "n < 10")
    case True
    with 1 show ?thesis by (subst dec_nat.simps) simp
  next
    case False
    then have "0 < n div 10" by simp
    with 1 False have "hd (dec_nat (n div 10)) \<noteq> 48" by simp
    with False show ?thesis by (subst dec_nat.simps) (simp add: dec_nat_nonempty)
  qed
qed

lemma at_delim_cases:
  assumes "at_delim rest"
  obtains "rest = []" | c t where "rest = c # t" "c = 44 \<or> c = 93 \<or> c = 125"
  using assms by (cases rest) (auto simp: at_delim_def)

lemma at_delim_not_digit: "at_delim (c # t) \<Longrightarrow> \<not> is_digit c"
  by (auto simp: at_delim_def is_digit_def)

lemma takeWhile_digits_delim:
  assumes "\<forall>d \<in> set ds. is_digit d" "at_delim rest"
  shows "takeWhile is_digit (ds @ rest) = ds \<and> dropWhile is_digit (ds @ rest) = rest"
proof (cases rest)
  case Nil
  with assms(1) show ?thesis by simp
next
  case (Cons c t)
  with assms(2) have "\<not> is_digit c" by (simp add: at_delim_not_digit)
  with assms(1) Cons show ?thesis by (simp add: takeWhile_append2 dropWhile_append2)
qed

lemma scan_int_part_dec_nat:
  assumes "at_delim rest"
  shows "scan_int_part (dec_nat n @ rest) = Some (dec_nat n, rest)"
proof (cases "n = 0")
  case True
  then show ?thesis by (simp add: dec_nat_zero scan_int_part_def)
next
  case False
  obtain d t where dt: "dec_nat n = d # t"
    using dec_nat_nonempty [of n] by (cases "dec_nat n") auto
  with False dec_nat_hd [of n] dec_nat_digits [of n] have d: "d \<noteq> 48" "is_digit d" by auto
  have tw: "takeWhile is_digit (dec_nat n @ rest) = dec_nat n"
    "dropWhile is_digit (dec_nat n @ rest) = rest"
    using takeWhile_digits_delim [OF dec_nat_digits assms] by auto
  have "scan_int_part (dec_nat n @ rest)
      = Some (takeWhile is_digit (dec_nat n @ rest), dropWhile is_digit (dec_nat n @ rest))"
    unfolding scan_int_part_def dt using d by simp
  then show ?thesis by (simp only: tw)
qed

lemma scan_frac_delim: "at_delim rest \<Longrightarrow> scan_frac rest = ([], rest)"
  by (cases rest) (auto simp: scan_frac_def at_delim_def split: list.splits)

lemma scan_exp_delim: "at_delim rest \<Longrightarrow> scan_exp rest = ([], rest)"
  by (cases rest) (auto simp: scan_exp_def at_delim_def)

lemma scan_number_digits:
  assumes "scan_int_part (ds @ rest) = Some (ds, rest)" "ds = d # t" "d \<noteq> 45" "at_delim rest"
  shows "scan_number (ds @ rest) = Some (JInt (int (digits_val ds)), rest)"
proof -
  have "scan_number ((d # t) @ rest) = Some (JInt (int (digits_val (d # t))), rest)"
    using assms(1) [unfolded assms(2)] assms(3)
    by (simp add: scan_number_def scan_frac_delim [OF assms(4)] scan_exp_delim [OF assms(4)])
  then show ?thesis by (simp only: assms(2))
qed

lemma scan_number_minus:
  assumes "scan_int_part (ds @ rest) = Some (ds, rest)" "at_delim rest"
  shows "scan_number (45 # ds @ rest) = Some (JInt (- int (digits_val ds)), rest)"
  using assms(1)
  by (simp add: scan_number_def scan_frac_delim [OF assms(2)] scan_exp_delim [OF assms(2)])

lemma scan_number_dec_int:
  assumes "at_delim rest"
  shows "scan_number (dec_int i @ rest) = Some (JInt i, rest)"
proof (cases "i < 0")
  case True
  then show ?thesis
    using scan_number_minus [OF scan_int_part_dec_nat [OF assms] assms, of "nat (- i)"]
    by (simp add: dec_int_def digits_val_dec_nat)
next
  case False
  obtain d t where dt: "dec_nat (nat i) = d # t"
    using dec_nat_nonempty [of "nat i"] by (cases "dec_nat (nat i)") auto
  with dec_nat_digits [of "nat i"] have "is_digit d" by auto
  then have "d \<noteq> 45" by (auto simp: is_digit_def)
  from scan_number_digits [OF scan_int_part_dec_nat [OF assms] dt this assms]
  show ?thesis using False by (simp add: dec_int_def digits_val_dec_nat)
qed

lemma dec_int_head:
  "\<exists>c cs. dec_int i = c # cs \<and> (is_digit c \<or> c = 45)"
proof -
  obtain d t where dt: "dec_nat (nat \<bar>i\<bar>) = d # t"
    using dec_nat_nonempty [of "nat \<bar>i\<bar>"] by (cases "dec_nat (nat \<bar>i\<bar>)") auto
  with dec_nat_digits [of "nat \<bar>i\<bar>"] have "is_digit d" by auto
  with dt show ?thesis by (cases "i < 0") (auto simp: dec_int_def abs_if)
qed

lemma scan_constant_number:
  assumes "scan_number (c # cs) = Some r" "c \<noteq> 110" "c \<noteq> 116" "c \<noteq> 102"
  shows "scan_constant (c # cs) = Some r"
  using assms by (simp add: scan_constant_def u_def)

lemma parse_value_int:
  assumes "at_delim rest"
  shows "parse_value (dec_int i @ rest) = Some (JInt i, rest)"
proof -
  obtain c cs where h: "dec_int i = c # cs" "is_digit c \<or> c = 45"
    using dec_int_head by blast
  then have ne: "c \<noteq> 34" "c \<noteq> 123" "c \<noteq> 91" "c \<noteq> 110" "c \<noteq> 116" "c \<noteq> 102"
    by (auto simp: is_digit_def)
  have n: "scan_number (c # cs @ rest) = Some (JInt i, rest)"
    using scan_number_dec_int [OF assms, of i] h(1) by simp
  have "parse_value (c # cs @ rest) = scan_constant (c # cs @ rest)"
    using ne by (subst parse_value.simps) simp
  also have "\<dots> = Some (JInt i, rest)"
    using scan_constant_number [OF n ne(4-6)] .
  finally show ?thesis using h(1) by simp
qed

lemma join_sep_Cons:
  "join_sep sep (x # xs) = x @ (if xs = [] then [] else sep @ join_sep sep xs)"
  by (cases xs) simp_all

lemma dumps_head:
  assumes "plain v"
  shows "\<exists>c cs. dumps v = c # cs
           \<and> (c = 34 \<or> c = 45 \<or> c = 91 \<or> c = 102 \<or> c = 110 \<or> c = 116 \<or> c = 123 \<or> is_digit c)"
proof (cases v)
  case (JInt i)
  then show ?thesis using dec_int_head [of i] by auto
qed (use assms in \<open>auto simp: u_def dumps_str_def\<close>)

lemma dumps_nonempty: "plain v \<Longrightarrow> dumps v \<noteq> []"
  using dumps_head by fastforce

lemma skip_ws_dumps: "plain v \<Longrightarrow> skip_ws (dumps v @ Z) = dumps v @ Z"
  using dumps_head [of v] by (auto simp: skip_ws_def is_ws_def is_digit_def)

lemma dumps_head_not_close: "plain v \<Longrightarrow> dumps v @ Z = d # r \<Longrightarrow> d \<noteq> 93 \<and> d \<noteq> 125"
  using dumps_head [of v] by (auto simp: is_digit_def)

lemma parse_value_null: "parse_value (u ''null'' @ rest) = Some (JNull, rest)"
  by (subst parse_value.simps) (simp add: u_def scan_constant_def prefix_code)

lemma parse_value_true: "parse_value (u ''true'' @ rest) = Some (JBool True, rest)"
  by (subst parse_value.simps) (simp add: u_def scan_constant_def prefix_code)

lemma parse_value_false: "parse_value (u ''false'' @ rest) = Some (JBool False, rest)"
  by (subst parse_value.simps) (simp add: u_def scan_constant_def prefix_code)

lemma parse_value_str:
  "\<forall>c \<in> set s. plain_char c \<Longrightarrow> parse_value (dumps_str s @ rest) = Some (JStr s, rest)"
  by (subst parse_value.simps) (simp add: dumps_str_def scanstring_escaped)

lemma parse_array_last:
  assumes "parse_value (dumps v @ 93 # rest) = Some (v, 93 # rest)" "dumps v \<noteq> []"
  shows "parse_array acc (dumps v @ 93 # rest) = Some (JList (rev (v # acc)), rest)"
  using assms by (subst parse_array.simps) (simp add: skip_ws_def is_ws_def)

lemma parse_array_more:
  assumes "parse_value (dumps v @ 44 # 32 # Y) = Some (v, 44 # 32 # Y)" "dumps v \<noteq> []"
    and "skip_ws Y = Y"
  shows "parse_array acc (dumps v @ 44 # 32 # Y) = parse_array (v # acc) Y"
  using assms(1,2) assms(3) [unfolded skip_ws_def]
  by (subst parse_array.simps) (simp add: skip_ws_def is_ws_def)

lemma at_delim_simps: "at_delim (93 # r)" "at_delim (44 # r)" "at_delim (125 # r)" "at_delim []"
  by (simp_all add: at_delim_def)

lemma parse_array_elems:
  assumes "\<forall>v \<in> set vs. plain v
             \<and> (\<forall>rest. at_delim rest \<longrightarrow> parse_value (dumps v @ rest) = Some (v, rest))"
    and "vs \<noteq> []"
  shows "parse_array acc (join_sep (u '', '') (map dumps vs) @ 93 # rest)
           = Some (JList (rev acc @ vs), rest)"
  using assms
proof (induction vs arbitrary: acc)
  case Nil
  then show ?case by simp
next
  case (Cons v vs)
  then have pv: "plain v"
    and rt: "\<And>r. at_delim r \<Longrightarrow> parse_value (dumps v @ r) = Some (v, r)"
    by auto
  show ?case
  proof (cases "vs = []")
    case True
    with parse_array_last [OF rt [OF at_delim_simps(1)] dumps_nonempty [OF pv]]
    show ?thesis by simp
  next
    case False
    then obtain w ws where vs: "vs = w # ws" by (cases vs) auto
    let ?Y = "join_sep (u '', '') (map dumps vs) @ 93 # rest"
    from Cons.prems vs have "plain w" by simp
    then have sk: "skip_ws ?Y = ?Y"
      using skip_ws_dumps [of w] by (simp add: vs join_sep_Cons)
    have "parse_array acc (dumps v @ 44 # 32 # ?Y) = parse_array (v # acc) ?Y"
      by (rule parse_array_more [OF rt [OF at_delim_simps(2)] dumps_nonempty [OF pv] sk])
    also have "\<dots> = Some (JList (rev (v # acc) @ vs), rest)"
      using Cons.IH [of "v # acc"] Cons.prems False by simp
    finally show ?thesis using False by (simp add: join_sep_Cons u_def)
  qed
qed

lemma member_text_unfold:
  "member_text (k, v) @ X = 34 # concat (map escape_char k) @ 34 # 58 # 32 # dumps v @ X"
  by (simp add: member_text_def dumps_str_def u_def)

lemma parse_object_last:
  assumes "\<forall>c \<in> set k. plain_char c" "plain v"
    and "parse_value (dumps v @ 125 # rest) = Some (v, 125 # rest)"
  shows "parse_object acc (member_text (k, v) @ 125 # rest)
           = Some (JDict (dict_of_pairs (rev ((k, v) # acc))), rest)"
  unfolding member_text_unfold
  using assms(3) dumps_nonempty [OF assms(2)] skip_ws_dumps [OF assms(2), unfolded skip_ws_def]
  by (subst parse_object.simps)
     (simp add: scanstring_escaped [OF assms(1)] skip_ws_def is_ws_def)

lemma parse_object_more:
  assumes "\<forall>c \<in> set k. plain_char c" "plain v"
    and "parse_value (dumps v @ 44 # 32 # Y) = Some (v, 44 # 32 # Y)"
    and "skip_ws Y = Y"
  shows "parse_object acc (member_text (k, v) @ 44 # 32 # Y) = parse_object ((k, v) # acc) Y"
  unfolding member_text_unfold
  using assms(3) dumps_nonempty [OF assms(2)] skip_ws_dumps [OF assms(2), unfolded skip_ws_def]
    assms(4) [unfolded skip_ws_def]
  by (subst parse_object.simps)
     (simp add: scanstring_escaped [OF assms(1)] skip_ws_def is_ws_def)

lemma skip_ws_member: "skip_ws (member_text kv @ X) = member_text kv @ X"
  by (cases kv) (simp add: member_text_unfold skip_ws_def is_ws_def)

lemma parse_object_members:
  assumes "\<forall>kv \<in> set kvs. (\<forall>c \<in> set (fst kv). plain_char c) \<and> plain (snd kv)
             \<and> (\<forall>rest. at_delim rest
                  \<longrightarrow> parse_value (dumps (snd kv) @ rest) = Some (snd kv, rest))"
    and "kvs \<noteq> []"
  shows "parse_object acc (join_sep (u '', '') (map member_text kvs) @ 125 # rest)
           = Some (JDict (dict_of_pairs (rev acc @ kvs)), rest)"
  using assms
proof (induction kvs arbitrary: acc)
  case Nil
  then show ?case by simp
next
  case (Cons kv kvs)
  obtain k v where kv: "kv = (k, v)" by (cases kv)
  with Cons.prems have pk: "\<forall>c \<in> set k. plain_char c" and pv: "plain v"
    and rt: "\<And>r. at_delim r \<Longrightarrow> parse_value (dumps v @ r) = Some (v, r)"
    by auto
  show ?case
  proof (cases "kvs = []")
    case True
    with parse_object_last [OF pk pv rt [OF at_delim_simps(3)]] kv
    show ?thesis by simp
  next
    case False
    then obtain w ws where kvs: "kvs = w # ws" by (cases kvs) auto
    let ?Y = "join_sep (u '', '') (map member_text kvs) @ 125 # rest"
    have sk: "skip_ws ?Y = ?Y"
      using skip_ws_member [of w] by (simp add: kvs join_sep_Cons)
    have "parse_object acc (member_text (k, v) @ 44 # 32 # ?Y) = parse_object ((k, v) # acc) ?Y"
      by (rule parse_object_more [OF pk pv rt [OF at_delim_simps(2)] sk])
    also have "\<dots> = Some (JDict (dict_of_pairs (rev ((k, v) # acc) @ kvs)), rest)"
      using Cons.IH [of "(k, v) # acc"] Cons.prems False by simp
    finally show ?thesis using False kv by (simp add: join_sep_Cons u_def)
  qed
qed

lemma dict_set_fresh: "k \<notin> fst ` set d \<Longrightarrow> dict_set d k v = d @ [(k, v)]"
  by (induction d) auto

lemma foldl_dict_set_distinct:
  "distinct (map fst (d @ kvs)) \<Longrightarrow> foldl (\<lambda>d (k, v). dict_set d k v) d kvs = d @ kvs"
proof (induction kvs arbitrary: d)
  case Nil
  then show ?case by simp
next
  case (Cons kv kvs)
  obtain k v where kv: "kv = (k, v)" by (cases kv)
  with Cons.prems have "k \<notin> fst ` set d" by auto
  then have "dict_set d k v = d @ [(k, v)]" by (rule dict_set_fresh)
  moreover from Cons.prems kv have "distinct (map fst ((d @ [(k, v)]) @ kvs))" by simp
  ultimately show ?case using Cons.IH [of "d @ [(k, v)]"] kv by simp
qed

lemma dict_of_pairs_distinct: "distinct (map fst kvs) \<Longrightarrow> dict_of_pairs kvs = kvs"
  using foldl_dict_set_distinct [of "[]" kvs] by (simp add: dict_of_pairs_def)

lemma dumps_dict_text:
  "dumps (JDict kvs) = 123 # join_sep (u '', '') (map member_text kvs) @ [125]"
proof -
  have "(\<lambda>kv. dumps_str (fst kv) @ u '': '' @ dumps (snd kv)) = member_text"
    by (rule ext) (simp add: member_text_def)
  then show ?thesis by simp
qed

lemma parse_value_dumps:
  "plain v \<Longrightarrow> at_delim rest \<Longrightarrow> parse_value (dumps v @ rest) = Some (v, rest)"
proof (induction v arbitrary: rest)
  case JNull
  then show ?case by (simp add: parse_value_null)
next
  case (JBool b)
  then show ?case by (simp add: parse_value_true parse_value_false)
next
  case (JInt i)
  then show ?case by (simp add: parse_value_int)
next
  case (JFloat l)
  then show ?case by simp
next
  case (JStr s)
  then show ?case by (simp add: parse_value_str)
next
  case (JList vs)
  show ?case
  proof (cases vs)
    case Nil
    then show ?thesis
      by (subst parse_value.simps) (simp add: skip_ws_def is_ws_def)
  next
    case (Cons w ws)
    let ?T = "join_sep (u '', '') (map dumps vs) @ 93 # rest"
    from JList.prems Cons have "plain w" by simp
    then obtain d r where dr: "?T = d # r" "d \<noteq> 93" and sk: "skip_ws ?T = ?T"
      using dumps_head_not_close [of w] skip_ws_dumps [of w] dumps_nonempty [of w]
      by (cases "dumps w") (auto simp: Cons join_sep_Cons)
    have el: "\<forall>v \<in> set vs. plain v
        \<and> (\<forall>rest. at_delim rest \<longrightarrow> parse_value (dumps v @ rest) = Some (v, rest))"
      using JList.IH JList.prems(1) by auto
    have "parse_value (91 # ?T) = parse_array [] ?T"
      unfolding dr(1) by (subst parse_value.simps) (simp add: sk [unfolded dr(1)] dr(2))
    also have "\<dots> = Some (JList vs, rest)"
      using parse_array_elems [OF el, of "[]" rest] Cons by simp
    finally show ?thesis by simp
  qed
next
  case (JDict kvs)
  show ?case
  proof (cases kvs)
    case Nil
    then show ?thesis
      by (subst parse_value.simps) (simp add: skip_ws_def is_ws_def)
  next
    case (Cons w ws)
    let ?T = "join_sep (u '', '') (map member_text kvs) @ 125 # rest"
    obtain r where dr: "?T = 34 # r" and sk: "skip_ws ?T = ?T"
      using skip_ws_member [of w] by (cases w) (auto simp: Cons join_sep_Cons member_text_unfold)
    have el: "\<forall>kv \<in> set kvs. (\<forall>c \<in> set (fst kv). plain_char c) \<and> plain (snd kv)
             \<and> (\<forall>rest. at_delim rest
                  \<longrightarrow> parse_value (dumps (snd kv) @ rest) = Some (snd kv, rest))"
    proof
      fix kv assume m: "kv \<in> set kvs"
      have "snd kv \<in> Basic_BNFs.snds kv" by (cases kv) simp
      from JDict.IH [OF m this] JDict.prems(1) m
      show "(\<forall>c \<in> set (fst kv). plain_char c) \<and> plain (snd kv)
             \<and> (\<forall>rest. at_delim rest
                  \<longrightarrow> parse_value (dumps (snd kv) @ rest) = Some (snd kv, rest))"
        by auto
    qed
    have "parse_value (123 # ?T) = parse_object [] ?T"
      unfolding dr by (subst parse_value.simps) (simp add: sk [unfolded dr])
    also have "\<dots> = Some (JDict (dict_of_pairs kvs), rest)"
      using parse_object_members [OF el, of "[]" rest] Cons by simp
    also have "dict_of_pairs kvs = kvs"
      using JDict.prems(1) by (simp add: dict_of_pairs_distinct)
    finally show ?thesis unfolding dumps_dict_text by simp
  qed
qed

lemma json_loads_dumps: "plain v \<Longrightarrow> json_loads (dumps v) = Some v"
proof -
  assume p: "plain v"
  then obtain c cs where h: "dumps v = c # cs"
    "c = 34 \<or> c = 45 \<or> c = 91 \<or> c = 102 \<or> c = 110 \<or> c = 116 \<or> c = 123 \<or> is_digit c"
    using dumps_head by blast
  then have "\<not> prefix [65279] (dumps v)" by (auto simp: is_digit_def)
  moreover have "skip_ws (dumps v) = dumps v" using skip_ws_dumps [OF p, of "[]"] by simp
  moreover have "parse_value (dumps v) = Some (v, [])"
    using parse_value_dumps [OF p at_delim_simps(4)] by simp
  ultimately show ?thesis by (simp add: json_loads_def skip_ws_def)
qed

lemma issue_entry_plain: "plain (issue_entry n)"
  by (simp add: issue_entry_def u_def plain_char_def)

lemma suggestion_entry_plain: "plain suggestion_entry"
  by (simp add: suggestion_entry_def u_def plain_char_def)

lemma fix_entry_plain: "plain fix_entry"
  by (simp add: fix_entry_def fix_patch_def u_def plain_char_def)

lemma scan_lines_preserves:
  assumes "\<And>n. P (issue_entry n)" "Q suggestion_entry" "R fix_entry"
    and "list_all P a" "list_all Q b" "list_all R c"
  shows "case scan_lines idx ls (a, b, c) of
           (a', b', c') \<Rightarrow> list_all P a' \<and> list_all Q b' \<and> list_all R c'"
  using assms(4-6)
proof (induction ls arbitrary: idx a b c)
  case Nil
  then show ?case by simp
next
  case (Cons l ls)
  show ?case
  proof (cases "zero_div_line l")
    case True
    have "list_all P (a @ [issue_entry idx])" "list_all Q (b @ [suggestion_entry])"
      "list_all R (c @ [fix_entry])"
      using Cons.prems assms(1-3) by simp_all
    from Cons.IH [OF this] True show ?thesis by simp
  next
    case False
    from Cons.IH [OF Cons.prems] False show ?thesis by simp
  qed
qed

lemma scan_lines_entries:
  assumes "scan_lines 1 ls ([], [], []) = (a, b, c)"
  shows "\<forall>x \<in> set a. plain x \<and> (\<exists>d. x = JDict d)" "\<forall>x \<in> set b. plain x"
    "\<forall>x \<in> set c. plain x \<and> (\<exists>d. x = JDict d)"
proof -
  have "\<And>n. plain (issue_entry n) \<and> (\<exists>d. issue_entry n = JDict d)"
    "plain fix_entry \<and> (\<exists>d. fix_entry = JDict d)"
    using issue_entry_plain fix_entry_plain by (simp_all add: issue_entry_def fix_entry_def)
  from scan_lines_preserves [of "\<lambda>x. plain x \<and> (\<exists>d. x = JDict d)" plain
      "\<lambda>x. plain x \<and> (\<exists>d. x = JDict d)" "[]" "[]" "[]" 1 ls, OF this(1)
      suggestion_entry_plain this(2)] assms
  have "list_all (\<lambda>x. plain x \<and> (\<exists>d. x = JDict d)) a \<and> list_all plain b
      \<and> list_all (\<lambda>x. plain x \<and> (\<exists>d. x = JDict d)) c"
    by simp
  then show "\<forall>x \<in> set a. plain x \<and> (\<exists>d. x = JDict d)" "\<forall>x \<in> set b. plain x"
    "\<forall>x \<in> set c. plain x \<and> (\<exists>d. x = JDict d)"
    by (simp_all add: list_all_iff)
qed

lemma all_dicts: "\<forall>x \<in> set xs. \<exists>d. x = JDict d \<Longrightarrow> \<exists>ds. xs = map JDict ds"
proof (induction xs)
  case Nil
  then show ?case by simp
next
  case (Cons x xs)
  then obtain d ds where "x = JDict d" "xs = map JDict ds" by auto
  then have "x # xs = map JDict (d # ds)" by simp
  then show ?case by (rule exI)
qed

lemma simulated_shape:
  "\<exists>s ds1 ss fs.
     simulated src =
       [(u ''summary'', JStr s),
        (u ''issues'', JList (map JDict ds1)),
        (u ''suggestions'', JList ss),
        (u ''automatic_fixes'', JList (map JDict fs)),
        (u ''effort_estimate'', JStr (u ''5-15 minutes'')),
        (u ''docs_updates'', JList [JStr (u ''Add README section describing usage.'')]),
        (u ''metadata'',
           JDict [(u ''language'', JStr (u ''python'')),
                  (u ''analysis_time'', JStr (u ''simulated''))])]
     \<and> (\<forall>c \<in> set s. plain_char c) \<and> (\<forall>d \<in> set ds1. plain (JDict d))
     \<and> (\<forall>x \<in> set ss. plain x) \<and> (\<forall>d \<in> set fs. plain (JDict d))"
proof -
  obtain is0 ss fs0 where sc: "scan_lines 1 (py_splitlines src) ([], [], []) = (is0, ss, fs0)"
    by (cases "scan_lines 1 (py_splitlines src) ([], [], [])") auto
  from scan_lines_entries [OF sc]
  have e: "\<forall>x \<in> set is0. plain x \<and> (\<exists>d. x = JDict d)" "\<forall>x \<in> set ss. plain x"
    "\<forall>x \<in> set fs0. plain x \<and> (\<exists>d. x = JDict d)"
    by simp_all
  obtain ds1 where ds1: "is0 = map JDict ds1" using all_dicts [of is0] e(1) by blast
  obtain fs where fs: "fs0 = map JDict fs" using all_dicts [of fs0] e(3) by blast
  have p: "\<forall>c \<in> set (u ''Simulated analysis (LLM not available).''). plain_char c"
    "\<forall>c \<in> set no_issues_sentence. plain_char c"
    by (simp_all add: u_def plain_char_def no_issues_sentence_def)
  let ?s = "if is0 = [] then u ''Simulated analysis (LLM not available).'' @ no_issues_sentence
            else u ''Simulated analysis (LLM not available).''"
  have "\<forall>c \<in> set ?s. plain_char c" using p by auto
  moreover have "\<forall>d \<in> set ds1. plain (JDict d)" "\<forall>d \<in> set fs. plain (JDict d)"
    using e ds1 fs by auto
  moreover have "simulated src =
       [(u ''summary'', JStr ?s),
        (u ''issues'', JList (map JDict ds1)),
        (u ''suggestions'', JList ss),
        (u ''automatic_fixes'', JList (map JDict fs)),
        (u ''effort_estimate'', JStr (u ''5-15 minutes'')),
        (u ''docs_updates'', JList [JStr (u ''Add README section describing usage.'')]),
        (u ''metadata'',
           JDict [(u ''language'', JStr (u ''python'')),
                  (u ''analysis_time'', JStr (u ''simulated''))])]"
    by (simp add: simulated_def sc ds1 fs)
  ultimately show ?thesis using e(2) by blast
qed

lemma simulated_plain: "plain (JDict (simulated src))"
proof -
  obtain s ds1 ss fs where
    sh: "simulated src =
       [(u ''summary'', JStr s),
        (u ''issues'', JList (map JDict ds1)),
        (u ''suggestions'', JList ss),
        (u ''automatic_fixes'', JList (map JDict fs)),
        (u ''effort_estimate'', JStr (u ''5-15 minutes'')),
        (u ''docs_updates'', JList [JStr (u ''Add README section describing usage.'')]),
        (u ''metadata'',
           JDict [(u ''language'', JStr (u ''python'')),
                  (u ''analysis_time'', JStr (u ''simulated''))])]"
    and pl: "\<forall>c \<in> set s. plain_char c" "\<forall>d \<in> set ds1. plain (JDict d)"
      "\<forall>x \<in> set ss. plain x" "\<forall>d \<in> set fs. plain (JDict d)"
    using simulated_shape [of src] by blast
  show ?thesis
    unfolding sh using pl by (simp add: u_def plain_char_def)
qed

lemma simulate_analysis_decodes:
  "json_loads (simulate_analysis prompt) = Some (JDict (simulated (extract_code prompt)))"
  unfolding simulate_analysis_def by (rule json_loads_dumps [OF simulated_plain])

lemma simulated_keys:
  "map fst (simulated src) =
     [u ''summary'', u ''issues'', u ''suggestions'', u ''automatic_fixes'',
      u ''effort_estimate'', u ''docs_updates'', u ''metadata'']"
  using simulated_shape [of src] by auto

lemma simulated_metadata:
  "dict_get (simulated src) (u ''metadata'') =
     Some (JDict [(u ''language'', JStr (u ''python'')),
                  (u ''analysis_time'', JStr (u ''simulated''))])"
  using simulated_shape [of src] by (auto simp: dict_get_def u_def)

lemma dict_set_same: "dict_get d k = Some v \<Longrightarrow> dict_set d k v = d"
  by (induction d) (auto simp: dict_get_def split: if_splits)

lemma heuristic_parsed:
  "parse_response (JStr (simulate_analysis prompt)) lang = simulated (extract_code prompt)"
proof -
  let ?d = "simulated (extract_code prompt)"
  let ?m = "[(u ''language'', JStr (u ''python'')), (u ''analysis_time'', JStr (u ''simulated''))]"
  have a: "setdefault ?d (u ''metadata'') (JDict []) = ?d"
    by (simp add: setdefault_def simulated_metadata)
  have b: "setdefault ?m (u ''language'') (opt_json lang) = ?m"
    by (simp add: setdefault_def dict_get_def)
  have "parse_response (JStr (simulate_analysis prompt)) lang
      = dict_set ?d (u ''metadata'') (JDict ?m)"
    by (simp add: parse_response_def py_json_loads_def simulate_analysis_decodes
        parse_decoded_def a simulated_metadata b)
  then show ?thesis by (simp add: dict_set_same simulated_metadata)
qed

text \<open>
  The text the formatter makes of the heuristic's dictionary holds no surrogate, and the
  dictionary holds neither a surrogate nor a float: writing or serialising them cannot fail.
\<close>

lemma encodable_Nil: "encodable []"
  by (simp add: encodable_def)

lemma encodable_Cons: "encodable (c # s) \<longleftrightarrow> \<not> is_surrogate c \<and> encodable s"
  by (simp add: encodable_def)

lemma encodable_append: "encodable (a @ b) \<longleftrightarrow> encodable a \<and> encodable b"
  by (auto simp: encodable_def)

lemmas encodable_simps = encodable_Nil encodable_Cons encodable_append

lemma encodable_below: "\<forall>c \<in> set s. c < 55296 \<Longrightarrow> encodable s"
  by (induction s) (simp_all add: encodable_simps is_surrogate_def)

lemma encodable_plain_text: "\<forall>c \<in> set s. plain_char c \<Longrightarrow> encodable s"
  by (rule encodable_below) (auto simp: plain_char_def)

lemma encodable_dec_nat: "encodable (dec_nat n)"
  by (rule encodable_below) (use dec_nat_digits [of n] in \<open>auto simp: is_digit_def\<close>)

lemma encodable_dec_int: "encodable (dec_int i)"
  by (simp add: dec_int_def encodable_simps encodable_dec_nat is_surrogate_def)

lemma encodable_concat_map:
  "\<forall>x \<in> set xs. encodable (f x) \<Longrightarrow> encodable (concat (map f xs))"
  by (induction xs) (simp_all add: encodable_simps)

lemma encodable_issue_lines:
  "\<forall>d \<in> set ds. \<forall>n. encodable (issue_line L n d)
   \<Longrightarrow> encodable (concat (map (\<lambda>(n, d). issue_line L n d) (enumerate i ds)))"
  by (induction ds arbitrary: i) (simp_all add: encodable_simps)

lemma encodable_headings:
  "encodable h_summary" "encodable h_issues" "encodable h_suggestions" "encodable h_fixes"
  "encodable h_effort" "encodable h_docs"
  by (simp_all add: h_summary_def h_issues_def h_suggestions_def h_fixes_def h_effort_def
      h_docs_def u_def encodable_simps is_surrogate_def)

lemma issue_entry_line:
  "\<exists>d. issue_entry m = JDict d \<and> (\<forall>n. encodable (issue_line L n d))"
  by (simp add: issue_entry_def issue_line_def get_or_def dict_get_def py_str_def u_def
      encodable_simps encodable_dec_nat encodable_dec_int is_surrogate_def)

lemma suggestion_entry_bullet: "encodable (bullet L suggestion_entry)"
  by (simp add: suggestion_entry_def bullet_def py_str_def u_def encodable_simps
      is_surrogate_def)

lemma fix_entry_block: "\<exists>d. fix_entry = JDict d \<and> encodable (fix_block L d)"
  by (simp add: fix_entry_def fix_block_def fix_patch_def get_or_def dict_get_def py_str_def
      u_def encodable_simps is_surrogate_def)

lemma all_dicts_with:
  "\<forall>x \<in> set xs. \<exists>d. x = JDict d \<and> P d \<Longrightarrow> \<exists>ds. xs = map JDict ds \<and> (\<forall>d \<in> set ds. P d)"
proof (induction xs)
  case Nil
  then show ?case by simp
next
  case (Cons x xs)
  then obtain d ds where "x = JDict d" "P d" "xs = map JDict ds" "\<forall>d \<in> set ds. P d" by auto
  then have "x # xs = map JDict (d # ds) \<and> (\<forall>e \<in> set (d # ds). P e)" by simp
  then show ?case by (rule exI)
qed

lemma scan_lines_texts:
  assumes "scan_lines 1 ls ([], [], []) = (a, b, c)"
  shows "\<forall>x \<in> set a. \<exists>d. x = JDict d \<and> (\<forall>n. encodable (issue_line L n d))"
    "\<forall>x \<in> set b. encodable (bullet L x)"
    "\<forall>x \<in> set c. \<exists>d. x = JDict d \<and> encodable (fix_block L d)"
proof -
  from scan_lines_preserves [of "\<lambda>x. \<exists>d. x = JDict d \<and> (\<forall>n. encodable (issue_line L n d))"
      "\<lambda>x. encodable (bullet L x)" "\<lambda>x. \<exists>d. x = JDict d \<and> encodable (fix_block L d)"
      "[]" "[]" "[]" 1 ls, OF issue_entry_line suggestion_entry_bullet fix_entry_block] assms
  have "list_all (\<lambda>x. \<exists>d. x = JDict d \<and> (\<forall>n. encodable (issue_line L n d))) a
      \<and> list_all (\<lambda>x. encodable (bullet L x)) b
      \<and> list_all (\<lambda>x. \<exists>d. x = JDict d \<and> encodable (fix_block L d)) c"
    by simp
  then show "\<forall>x \<in> set a. \<exists>d. x = JDict d \<and> (\<forall>n. encodable (issue_line L n d))"
    "\<forall>x \<in> set b. encodable (bullet L x)"
    "\<forall>x \<in> set c. \<exists>d. x = JDict d \<and> encodable (fix_block L d)"
    by (simp_all add: list_all_iff)
qed

lemma simulated_formats:
  "\<exists>out. format_analysis L (simulated src) = Inr out \<and> encodable out"
proof -
  obtain is0 ss fs0 where sc: "scan_lines 1 (py_splitlines src) ([], [], []) = (is0, ss, fs0)"
    by (cases "scan_lines 1 (py_splitlines src) ([], [], [])") auto
  note t = scan_lines_texts [OF sc, of L]
  obtain ds1 where ds1: "is0 = map JDict ds1"
    and e1: "\<forall>d \<in> set ds1. \<forall>n. encodable (issue_line L n d)"
    using all_dicts_with [of is0 "\<lambda>d. \<forall>n. encodable (issue_line L n d)"] t(1) by blast
  obtain fs where fs: "fs0 = map JDict fs" and e3: "\<forall>d \<in> set fs. encodable (fix_block L d)"
    using all_dicts_with [of fs0 "\<lambda>d. encodable (fix_block L d)"] t(3) by blast
  let ?s = "if is0 = [] then u ''Simulated analysis (LLM not available).'' @ no_issues_sentence
            else u ''Simulated analysis (LLM not available).''"
  have es: "encodable ?s"
    by (simp add: no_issues_sentence_def u_def encodable_simps is_surrogate_def)
  have sh: "simulated src =
       [(u ''summary'', JStr ?s),
        (u ''issues'', JList (map JDict ds1)),
        (u ''suggestions'', JList ss),
        (u ''automatic_fixes'', JList (map JDict fs)),
        (u ''effort_estimate'', JStr (u ''5-15 minutes'')),
        (u ''docs_updates'', JList [JStr (u ''Add README section describing usage.'')]),
        (u ''metadata'',
           JDict [(u ''language'', JStr (u ''python'')),
                  (u ''analysis_time'', JStr (u ''simulated''))])]"
    by (simp add: simulated_def sc ds1 fs)
  have g: "dict_get (simulated src) (u ''issues'') = Some (JList (map JDict ds1))"
    "dict_get (simulated src) (u ''suggestions'') = Some (JList ss)"
    "dict_get (simulated src) (u ''automatic_fixes'') = Some (JList (map JDict fs))"
    "dict_get (simulated src) (u ''docs_updates'')
       = Some (JList [JStr (u ''Add README section describing usage.'')])"
    unfolding sh by (simp_all add: dict_get_def u_def)
  have v: "py_str L (get_or (simulated src) (u ''summary'') (JStr [])) = ?s"
    "get_or (simulated src) (u ''effort_estimate'') JNull = JStr (u ''5-15 minutes'')"
    unfolding sh by (simp_all add: get_or_def dict_get_def py_str_def u_def)
  have w: "encodable (u ''5-15 minutes'')"
    "encodable (bullet L (JStr (u ''Add README section describing usage.'')))"
    by (simp_all add: bullet_def py_str_def u_def encodable_simps is_surrogate_def)
  let ?out = "h_summary @ ?s @ [10, 10]
      @ (if ds1 = [] then []
         else h_issues @ concat (map (\<lambda>(n, d). issue_line L n d) (enumerate 1 ds1)) @ [10])
      @ (if ss = [] then [] else h_suggestions @ concat (map (bullet L) ss) @ [10])
      @ (if fs = [] then [] else h_fixes @ concat (map (fix_block L) fs) @ [10])
      @ h_effort @ u ''5-15 minutes'' @ [10, 10]
      @ h_docs @ bullet L (JStr (u ''Add README section describing usage.'')) @ [10]"
  have f: "format_analysis L (simulated src) = Inr ?out"
    using format_analysis_sections [OF g, of L] unfolding v
    by (simp add: py_bool_def py_str_def u_def)
  have "encodable ?out"
    using es w e1 e3 t(2) encodable_headings
    by (simp add: encodable_simps is_surrogate_def encodable_issue_lines encodable_concat_map
        del: append_assoc)
  with f show ?thesis by blast
qed

lemma plain_renders: "plain v \<Longrightarrow> \<not> has_nonfinite L v \<and> \<not> has_surrogate v"
proof (induction v)
  case (JStr s)
  then have "encodable s" by (simp add: encodable_plain_text)
  then show ?case by (simp add: encodable_def)
next
  case (JList vs)
  then show ?case by (auto simp: list_ex_iff)
next
  case (JDict kvs)
  have "\<not> list_ex is_surrogate (fst kv) \<and> \<not> has_nonfinite L (snd kv) \<and> \<not> has_surrogate (snd kv)"
    if "kv \<in> set kvs" for kv
  proof -
    from that JDict.prems have p: "\<forall>c \<in> set (fst kv). plain_char c" "plain (snd kv)"
      by (auto simp: case_prod_beta)
    have "snd kv \<in> Basic_BNFs.snds kv" by (cases kv) simp
    from JDict.IH [OF that this p(2)] encodable_plain_text [OF p(1)]
    show ?thesis by (simp add: encodable_def)
  qed
  then show ?case by (auto simp: list_ex_iff)
qed simp_all

lemma demo_request_not_blank: "py_strip (u ''x = a / 0'') \<noteq> []"
  by (simp add: py_strip_blank py_isspace_def u_def)

lemma analysed_fallback:
  assumes "remote E (build_prompt (code req) (language req)) = Call_failed"
  shows "fst (analysed E req w)
           = simulated (extract_code (build_prompt (code req) (language req)))"
  using assms by (simp add: analysed_def call_llm_def heuristic_parsed Let_def)

lemma json_answer:
  assumes "py_strip (code req) \<noteq> []" and "request_pdf req \<noteq> Some True"
    and "format_analysis (lib E) (fst (analysed E req w)) = Inr out"
  shows "fst (analyze_code E req w) =
       json_response (lib E) (JDict [(u ''formatted_analysis'', JStr out),
                                     (u ''raw'', JDict (fst (analysed E req w)))])"
  using assms by (simp add: analyze_code_def respond_def split_beta)

lemma json_response_clean:
  assumes "encodable out" and "\<not> has_nonfinite L v" and "\<not> has_surrogate v"
  shows "json_response L (JDict [(u ''formatted_analysis'', JStr out), (u ''raw'', v)])
       = Json_response (JDict [(u ''formatted_analysis'', JStr out), (u ''raw'', v)])"
  using assms by (simp add: json_response_def encodable_def u_def is_surrogate_def)

lemma heuristic_json_answer:
  assumes "remote E (build_prompt (code req) (language req)) = Call_failed"
    and "py_strip (code req) \<noteq> []" and "request_pdf req \<noteq> Some True"
  shows "\<exists>out. fst (analyze_code E req w) =
       Json_response (JDict [(u ''formatted_analysis'', JStr out),
                             (u ''raw'', JDict (fst (analysed E req w)))])"
proof -
  let ?d = "simulated (extract_code (build_prompt (code req) (language req)))"
  have d: "fst (analysed E req w) = ?d" by (rule analysed_fallback [OF assms(1)])
  obtain out where out: "format_analysis (lib E) ?d = Inr out" "encodable out"
    using simulated_formats [of "lib E" "extract_code (build_prompt (code req) (language req))"]
    by auto
  have c: "\<not> has_nonfinite (lib E) (JDict ?d) \<and> \<not> has_surrogate (JDict ?d)"
    by (rule plain_renders [OF simulated_plain])
  have f: "format_analysis (lib E) (fst (analysed E req w)) = Inr out"
    unfolding d by (rule out(1))
  have "fst (analyze_code E req w) =
       json_response (lib E) (JDict [(u ''formatted_analysis'', JStr out),
                                     (u ''raw'', JDict (fst (analysed E req w)))])"
    by (rule json_answer [OF assms(2,3) f])
  also have "\<dots> = Json_response (JDict [(u ''formatted_analysis'', JStr out),
                             (u ''raw'', JDict (fst (analysed E req w)))])"
    unfolding d by (rule json_response_clean [OF out(2) c [THEN conjunct1] c [THEN conjunct2]])
  finally show ?thesis by (intro exI)
qed

text \<open>
  Claim C5. For every prompt, the text returned by the heuristic decodes to a dictionary
  with exactly the keys of an AnalysisResult: \<^verbatim>\<open>summary\<close>, \<^verbatim>\<open>issues\<close>,
  \<^verbatim>\<open>suggestions\<close>, \<^verbatim>\<open>automatic_fixes\<close>, \<^verbatim>\<open>effort_estimate\<close>, \<^verbatim>\<open>docs_updates\<close> and
  \<^verbatim>\<open>metadata\<close>. And whenever the call to the model server fails, the dictionary
  \<^verbatim>\<open>parsed\<close> of the handler has these keys and its \<^verbatim>\<open>metadata.analysis_time\<close> is
  \<^verbatim>\<open>simulated\<close>; it is the \<^verbatim>\<open>raw\<close> of the response whenever the response is the JSON
  one (code not blank, no PDF requested).
\<close>

theorem heuristic_schema_and_marker:
  "(\<exists>d. json_loads (simulate_analysis prompt) = Some (JDict d)
        \<and> map fst d =
            [u ''summary'', u ''issues'', u ''suggestions'', u ''automatic_fixes'',
             u ''effort_estimate'', u ''docs_updates'', u ''metadata''])
   \<and> (remote E (build_prompt (code req) (language req)) = Call_failed
      \<longrightarrow> (\<exists>m. map fst (fst (analysed E req w)) =
                [u ''summary'', u ''issues'', u ''suggestions'', u ''automatic_fixes'',
                 u ''effort_estimate'', u ''docs_updates'', u ''metadata'']
            \<and> dict_get (fst (analysed E req w)) (u ''metadata'') = Some (JDict m)
            \<and> dict_get m (u ''analysis_time'') = Some (JStr (u ''simulated'')))
          \<and> (py_strip (code req) \<noteq> [] \<and> request_pdf req \<noteq> Some True
             \<longrightarrow> (\<exists>formatted. fst (analyze_code E req w) =
                    Json_response (JDict [(u ''formatted_analysis'', JStr formatted),
                                          (u ''raw'', JDict (fst (analysed E req w)))]))))"
proof (intro conjI impI)
  show "\<exists>d. json_loads (simulate_analysis prompt) = Some (JDict d)
        \<and> map fst d =
            [u ''summary'', u ''issues'', u ''suggestions'', u ''automatic_fixes'',
             u ''effort_estimate'', u ''docs_updates'', u ''metadata'']"
    using simulate_analysis_decodes simulated_keys by blast
next
  assume a: "remote E (build_prompt (code req) (language req)) = Call_failed"
  have m: "dict_get [(u ''language'', JStr (u ''python'')),
                  (u ''analysis_time'', JStr (u ''simulated''))] (u ''analysis_time'')
        = Some (JStr (u ''simulated''))"
    by (simp add: dict_get_def u_def)
  have "map fst (fst (analysed E req w)) =
                [u ''summary'', u ''issues'', u ''suggestions'', u ''automatic_fixes'',
                 u ''effort_estimate'', u ''docs_updates'', u ''metadata'']
            \<and> dict_get (fst (analysed E req w)) (u ''metadata'')
                = Some (JDict [(u ''language'', JStr (u ''python'')),
                               (u ''analysis_time'', JStr (u ''simulated''))])
            \<and> dict_get [(u ''language'', JStr (u ''python'')),
                         (u ''analysis_time'', JStr (u ''simulated''))] (u ''analysis_time'')
                = Some (JStr (u ''simulated''))"
    using m by (simp add: analysed_fallback [OF a] simulated_keys simulated_metadata)
  then show "\<exists>m. map fst (fst (analysed E req w)) =
                [u ''summary'', u ''issues'', u ''suggestions'', u ''automatic_fixes'',
                 u ''effort_estimate'', u ''docs_updates'', u ''metadata'']
            \<and> dict_get (fst (analysed E req w)) (u ''metadata'') = Some (JDict m)
            \<and> dict_get m (u ''analysis_time'') = Some (JStr (u ''simulated''))"
    by (intro exI)
next
  assume a: "remote E (build_prompt (code req) (language req)) = Call_failed"
    and b: "py_strip (code req) \<noteq> [] \<and> request_pdf req \<noteq> Some True"
  from heuristic_json_answer [OF a b [THEN conjunct1] b [THEN conjunct2]]
  show "\<exists>formatted. fst (analyze_code E req w) =
                    Json_response (JDict [(u ''formatted_analysis'', JStr formatted),
                                          (u ''raw'', JDict (fst (analysed E req w)))])"
    .
qed

theorem heuristic_schema_and_marker_witness:
  "(\<exists>m. dict_get (fst (analysed (demo_env Call_failed False)
           \<lparr>code = u ''x = a / 0'', language = Some (u ''python''), request_pdf = Some False\<rparr>
           no_effects)) (u ''metadata'') = Some (JDict m)
        \<and> dict_get m (u ''analysis_time'') = Some (JStr (u ''simulated'')))
   \<and> (\<exists>formatted.
        fst (analyze_code (demo_env Call_failed False)
           \<lparr>code = u ''x = a / 0'', language = Some (u ''python''), request_pdf = Some False\<rparr>
           no_effects) =
        Json_response (JDict [(u ''formatted_analysis'', JStr formatted),
          (u ''raw'', JDict (fst (analysed (demo_env Call_failed False)
             \<lparr>code = u ''x = a / 0'', language = Some (u ''python''),
                request_pdf = Some False\<rparr> no_effects)))]))"
proof -
  let ?E = "demo_env Call_failed False"
  let ?req = "\<lparr>code = u ''x = a / 0'', language = Some (u ''python''),
                request_pdf = Some False\<rparr>"
  have a: "remote ?E (build_prompt (code ?req) (language ?req)) = Call_failed"
    by (simp add: demo_env_def)
  have b: "py_strip (code ?req) \<noteq> [] \<and> request_pdf ?req \<noteq> Some True"
    using demo_request_not_blank by simp
  from heuristic_schema_and_marker [of "[]" ?E ?req no_effects] a b
  show ?thesis by blast
qed

text \<open>
  Claim C10. Whenever the call to the model server fails, the \<^verbatim>\<open>metadata.language\<close> of
  the handler's dictionary \<^verbatim>\<open>parsed\<close> is \<^verbatim>\<open>python\<close>, whatever language the request
  declared: the heuristic sets the key, and the parser fills it only when it is absent.
  This dictionary is the \<^verbatim>\<open>raw\<close> of the response whenever the response is the JSON one
  (code not blank, no PDF requested).
\<close>

theorem fallback_language_is_python:
  assumes "remote E (build_prompt (code req) (language req)) = Call_failed"
  shows "(\<exists>m. dict_get (fst (analysed E req w)) (u ''metadata'') = Some (JDict m)
            \<and> dict_get m (u ''language'') = Some (JStr (u ''python'')))
       \<and> (py_strip (code req) \<noteq> [] \<and> request_pdf req \<noteq> Some True
           \<longrightarrow> (\<exists>formatted. fst (analyze_code E req w) =
                  Json_response (JDict [(u ''formatted_analysis'', JStr formatted),
                                        (u ''raw'', JDict (fst (analysed E req w)))])))"
proof (intro conjI impI)
  have "dict_get (fst (analysed E req w)) (u ''metadata'')
                = Some (JDict [(u ''language'', JStr (u ''python'')),
                               (u ''analysis_time'', JStr (u ''simulated''))])
            \<and> dict_get [(u ''language'', JStr (u ''python'')),
                         (u ''analysis_time'', JStr (u ''simulated''))] (u ''language'')
                = Some (JStr (u ''python''))"
    by (simp add: analysed_fallback [OF assms] simulated_metadata) (simp add: dict_get_def)
  then show "\<exists>m. dict_get (fst (analysed E req w)) (u ''metadata'') = Some (JDict m)
            \<and> dict_get m (u ''language'') = Some (JStr (u ''python''))"
    by (intro exI)
next
  assume b: "py_strip (code req) \<noteq> [] \<and> request_pdf req \<noteq> Some True"
  from heuristic_json_answer [OF assms b [THEN conjunct1] b [THEN conjunct2]]
  show "\<exists>formatted. fst (analyze_code E req w) =
                    Json_response (JDict [(u ''formatted_analysis'', JStr formatted),
                                          (u ''raw'', JDict (fst (analysed E req w)))])"
    .
qed

theorem fallback_language_is_python_witness:
  "(\<exists>m. dict_get (fst (analysed (demo_env Call_failed False)
           \<lparr>code = u ''x = a / 0'', language = Some (u ''go''), request_pdf = Some False\<rparr>
           no_effects)) (u ''metadata'') = Some (JDict m)
        \<and> dict_get m (u ''language'') = Some (JStr (u ''python'')))
   \<and> (\<exists>formatted.
        fst (analyze_code (demo_env Call_failed False)
           \<lparr>code = u ''x = a / 0'', language = Some (u ''go''), request_pdf = Some False\<rparr>
           no_effects) =
        Json_response (JDict [(u ''formatted_analysis'', JStr formatted),
          (u ''raw'', JDict (fst (analysed (demo_env Call_failed False)
             \<lparr>code = u ''x = a / 0'', language = Some (u ''go''),
                request_pdf = Some False\<rparr> no_effects)))]))"
proof -
  let ?E = "demo_env Call_failed False"
  let ?req = "\<lparr>code = u ''x = a / 0'', language = Some (u ''go''), request_pdf = Some False\<rparr>"
  have a: "remote ?E (build_prompt (code ?req) (language ?req)) = Call_failed"
    by (simp add: demo_env_def)
  have b: "py_strip (code ?req) \<noteq> [] \<and> request_pdf ?req \<noteq> Some True"
    using demo_request_not_blank by simp
  from fallback_language_is_python [OF a, of no_effects] b
  show ?thesis by blast
qed

section \<open>When the heuristic does recover the code\<close>

text \<open>
  The extraction gives the code back when the language holds no double quote and the code,
  followed by two double quotes, holds no triple quote: then the first triple quote after
  the code is the one the prompt builder put there.
\<close>

lemma split_go_skip: "split_go sep (length cs) cur (cs @ rest) = split_go sep 0 cur rest"
  by (induction cs) simp_all

lemma split_go_at_sep:
  assumes "sep \<noteq> []"
  shows "split_go sep 0 cur (sep @ rest) = rev cur # split_go sep 0 [] rest"
proof -
  obtain c cs where sep: "sep = c # cs" using assms by (cases sep) auto
  have "split_go sep 0 cur (c # cs @ rest) = rev cur # split_go sep (length cs) [] (cs @ rest)"
    by (simp add: sep)
  then show ?thesis by (simp add: sep split_go_skip)
qed

lemma prefix_into_shorter:
  assumes "prefix sep (pre @ sep @ rest)" "pre \<noteq> []" "sep \<noteq> []"
  shows "prefix sep (pre @ butlast sep)"
proof -
  have "prefix (pre @ butlast sep) (pre @ sep @ rest)"
    using assms(3) by (metis append_butlast_last_id append.assoc prefixI same_prefix_prefix)
  moreover have "length sep \<le> length (pre @ butlast sep)"
    using assms(2,3) by (cases pre) auto
  ultimately show ?thesis using assms(1) prefix_length_prefix by blast
qed

lemma split_go_first:
  assumes "\<not> sublist sep (pre @ butlast sep)" "sep \<noteq> []"
  shows "split_go sep 0 cur (pre @ sep @ rest) = (rev cur @ pre) # split_go sep 0 [] rest"
  using assms(1)
proof (induction pre arbitrary: cur)
  case Nil
  then show ?case by (simp add: split_go_at_sep [OF assms(2)])
next
  case (Cons p ps)
  have "\<not> prefix sep ((p # ps) @ sep @ rest)"
    using prefix_into_shorter [of sep "p # ps" rest] Cons.prems assms(2)
    by (auto simp: sublist_Cons_right)
  moreover have "\<not> sublist sep (ps @ butlast sep)"
    using Cons.prems by (auto simp: sublist_Cons_right)
  ultimately show ?case using Cons.IH [of "p # cur"] by simp
qed

lemma sublist_skip_other:
  "c \<notin> set A \<Longrightarrow> sublist (c # cs) (A @ X) \<longleftrightarrow> sublist (c # cs) X"
  by (induction A) (auto simp: sublist_Cons_right)

lemma extract_code_build_prompt:
  assumes "34 \<notin> set (opt_str lang)"
    and "\<not> py_in triple_quote (src @ [34, 34])"
  shows "extract_code (build_prompt src lang) = src"
proof -
  define P where "P = [10] @ u ''You are a senior software engineer and code reviewer. Analyze the ''
     @ opt_str lang @ u '' code and return a JSON object ONLY:'' @ [10]
     @ u ''- summary, issues, suggestions, automatic_fixes, effort_estimate, docs_updates, metadata.''
     @ [10] @ u ''CODE:'' @ [10]"
  have bp: "build_prompt src lang = P @ triple_quote @ src @ triple_quote @ [10]"
    by (simp add: build_prompt_def P_def)
  have "34 \<notin> set P" using assms(1) by (simp add: P_def u_def)
  then have nP: "\<not> sublist triple_quote (P @ butlast triple_quote)"
    by (simp add: triple_quote_def sublist_skip_other sublist_code prefix_code)
  have nS: "\<not> sublist triple_quote (src @ butlast triple_quote)"
    using assms(2) by (simp add: py_in_def triple_quote_def)
  have ne: "triple_quote \<noteq> []" by (simp add: triple_quote_def)
  have "py_split triple_quote (build_prompt src lang)
      = P # src # split_go triple_quote 0 [] [10]"
    unfolding py_split_def bp
    using split_go_first [OF nP ne, of "[]" "src @ triple_quote @ [10]"]
      split_go_first [OF nS ne, of "[]" "[10]"]
    by simp
  moreover have "py_in triple_quote (build_prompt src lang)"
    unfolding bp py_in_def by (rule sublist_appendI)
  ultimately show ?thesis by (simp add: extract_code_def)
qed


section \<open>The heuristic on the code of a request\<close>

text \<open>
  When the extraction gives the code back, the two facts about the scan hold of the
  heuristic's result for the code of the request.
\<close>

lemma heuristic_one_match:
  assumes "34 \<notin> set (opt_str lang)"
    and "\<not> py_in triple_quote (src @ [34, 34])"
    and "k < length (py_splitlines src)"
    and "zero_div_line (py_splitlines src ! k)"
    and "\<forall>j < length (py_splitlines src). j \<noteq> k \<longrightarrow> \<not> zero_div_line (py_splitlines src ! j)"
  shows "\<exists>d issue. json_loads (simulate_analysis (build_prompt src lang)) = Some (JDict d)
           \<and> dict_get d (u ''issues'') = Some (JList [issue])
           \<and> json_get issue (u ''line'') = Some (JInt (int k + 1))
           \<and> json_get issue (u ''severity'') = Some (JStr (u ''high''))"
  using scan_one_match [OF assms(3-5)]
  by (simp add: simulate_analysis_decodes extract_code_build_prompt [OF assms(1,2)])

lemma heuristic_no_match:
  assumes "34 \<notin> set (opt_str lang)"
    and "\<not> py_in triple_quote (src @ [34, 34])"
    and "\<forall>line \<in> set (py_splitlines src).
             \<not> py_in (u '' / 0'') line
           \<and> \<not> py_in (u ''/0'') (py_replace (u '' '') [] line)"
  shows "\<exists>d. json_loads (simulate_analysis (build_prompt src lang)) = Some (JDict d)
           \<and> dict_get d (u ''issues'') = Some (JList [])
           \<and> (\<exists>s. dict_get d (u ''summary'') = Some (JStr s) \<and> suffix no_issues_sentence s)"
  using scan_no_match [OF assms(3)]
  by (simp add: simulate_analysis_decodes extract_code_build_prompt [OF assms(1,2)])

lemma docstring_code_lines:
  "py_splitlines docstring_code =
     [u ''def f(a):'', u ''    '' @ [34, 34, 34] @ u ''Divide.'' @ [34, 34, 34],
      u ''    return a / 0'']"
  by (simp add: docstring_code_def str_eval)

lemma docstring_code_extracted:
  "extract_code (build_prompt docstring_code (Some (u ''python'')))
     = u ''def f(a):'' @ [10] @ u ''    ''"
  by (simp add: extract_code_def build_prompt_def docstring_code_def triple_quote_def
      opt_str_def py_split_def str_eval)

text \<open>
  Claim C3 (a defect of the code). The code of this request has three lines, and exactly
  one of them, the third, matches the division-by-zero test. The heuristic is given the
  prompt built from this code. It scans only the text before the docstring, and the
  dictionary it returns has an empty \<^verbatim>\<open>issues\<close> list, where the claim promises one issue
  for line 3.
\<close>

theorem docstring_division_not_reported:
  "length (py_splitlines docstring_code) = 3
   \<and> \<not> zero_div_line (py_splitlines docstring_code ! 0)
   \<and> \<not> zero_div_line (py_splitlines docstring_code ! 1)
   \<and> zero_div_line (py_splitlines docstring_code ! 2)
   \<and> json_loads (simulate_analysis (build_prompt docstring_code (Some (u ''python'')))) =
       Some (JDict
         [(u ''summary'',
             JStr (u ''Simulated analysis (LLM not available). No obvious runtime errors detected.'')),
          (u ''issues'', JList []),
          (u ''suggestions'', JList []),
          (u ''automatic_fixes'', JList []),
          (u ''effort_estimate'', JStr (u ''5-15 minutes'')),
          (u ''docs_updates'', JList [JStr (u ''Add README section describing usage.'')]),
          (u ''metadata'',
             JDict [(u ''language'', JStr (u ''python'')),
                    (u ''analysis_time'', JStr (u ''simulated''))])])"
proof -
  have a: "length (py_splitlines docstring_code) = 3"
    "\<not> zero_div_line (py_splitlines docstring_code ! 0)"
    "\<not> zero_div_line (py_splitlines docstring_code ! 1)"
    "zero_div_line (py_splitlines docstring_code ! 2)"
    unfolding docstring_code_lines by (simp_all add: str_eval)
  have "simulated (u ''def f(a):'' @ [10] @ u ''    '') =
         [(u ''summary'',
             JStr (u ''Simulated analysis (LLM not available). No obvious runtime errors detected.'')),
          (u ''issues'', JList []),
          (u ''suggestions'', JList []),
          (u ''automatic_fixes'', JList []),
          (u ''effort_estimate'', JStr (u ''5-15 minutes'')),
          (u ''docs_updates'', JList [JStr (u ''Add README section describing usage.'')]),
          (u ''metadata'',
             JDict [(u ''language'', JStr (u ''python'')),
                    (u ''analysis_time'', JStr (u ''simulated''))])]"
    by (simp add: simulated_def no_issues_sentence_def str_eval)
  with a show ?thesis
    by (simp only: simulate_analysis_decodes docstring_code_extracted simp_thms)
qed

lemma quoted_language_extracted:
  "extract_code (build_prompt (u ''x = 1'') (Some ([34, 34, 34] @ u ''y / 0'')))
     = u ''y / 0 code and return a JSON object ONLY:'' @ [10]
       @ u ''- summary, issues, suggestions, automatic_fixes, effort_estimate, docs_updates, metadata.''
       @ [10] @ u ''CODE:'' @ [10]"
  by (simp add: extract_code_def build_prompt_def triple_quote_def opt_str_def py_split_def
      str_eval)

text \<open>
  Claim C4 (a defect of the code). The code of this request is the single line
  \<^verbatim>\<open>x = 1\<close>, which matches neither pattern, and its language is the text
  \<^verbatim>\<open>"""y / 0\<close>. The triple quote of the language ends the first piece of the prompt, so
  the heuristic scans the prompt's own instructions in place of the code: it reports an
  issue for line 1 and its summary does not end with the no-issues sentence.
\<close>

theorem quoted_language_reports_issue:
  "py_splitlines (u ''x = 1'') = [u ''x = 1'']
   \<and> \<not> py_in (u '' / 0'') (u ''x = 1'')
   \<and> \<not> py_in (u ''/0'') (py_replace (u '' '') [] (u ''x = 1''))
   \<and> json_loads (simulate_analysis
        (build_prompt (u ''x = 1'') (Some ([34, 34, 34] @ u ''y / 0'')))) =
       Some (JDict
         [(u ''summary'', JStr (u ''Simulated analysis (LLM not available).'')),
          (u ''issues'', JList [issue_entry 1]),
          (u ''suggestions'', JList [suggestion_entry]),
          (u ''automatic_fixes'', JList [fix_entry]),
          (u ''effort_estimate'', JStr (u ''5-15 minutes'')),
          (u ''docs_updates'', JList [JStr (u ''Add README section describing usage.'')]),
          (u ''metadata'',
             JDict [(u ''language'', JStr (u ''python'')),
                    (u ''analysis_time'', JStr (u ''simulated''))])])
   \<and> \<not> suffix no_issues_sentence (u ''Simulated analysis (LLM not available).'')"
proof -
  have a: "py_splitlines (u ''x = 1'') = [u ''x = 1'']"
    "\<not> py_in (u '' / 0'') (u ''x = 1'')"
    "\<not> py_in (u ''/0'') (py_replace (u '' '') [] (u ''x = 1''))"
    by (simp_all add: str_eval)
  have b: "simulated (u ''y / 0 code and return a JSON object ONLY:'' @ [10]
       @ u ''- summary, issues, suggestions, automatic_fixes, effort_estimate, docs_updates, metadata.''
       @ [10] @ u ''CODE:'' @ [10]) =
         [(u ''summary'', JStr (u ''Simulated analysis (LLM not available).'')),
          (u ''issues'', JList [issue_entry 1]),
          (u ''suggestions'', JList [suggestion_entry]),
          (u ''automatic_fixes'', JList [fix_entry]),
          (u ''effort_estimate'', JStr (u ''5-15 minutes'')),
          (u ''docs_updates'', JList [JStr (u ''Add README section describing usage.'')]),
          (u ''metadata'',
             JDict [(u ''language'', JStr (u ''python'')),
                    (u ''analysis_time'', JStr (u ''simulated''))])]"
    by (simp add: simulated_def str_eval)
  have c: "\<not> suffix no_issues_sentence (u ''Simulated analysis (LLM not available).'')"
    by (simp add: no_issues_sentence_def u_def suffix_def)
  from a b c show ?thesis
    by (simp only: simulate_analysis_decodes quoted_language_extracted simp_thms)
qed

section \<open>A completion that does not decode\<close>

text \<open>
  A completion that is no JSON text, or no string at all, becomes the summary of the
  dictionary of the \<^verbatim>\<open>except\<close> branch, and the formatted text is the completion as
  printed, under the Summary heading. When no PDF is requested the answer is what
  rendering the JSON response gives: the response itself, or the exception raised by a
  surrogate in the completion or in the language.
\<close>

lemma undecodable_formatted:
  "format_analysis L (wrap_raw raw lang) = Inr (h_summary @ py_str L raw @ [10, 10])"
proof -
  let ?a = "wrap_raw raw lang"
  have g: "dict_get ?a (u ''issues'') = Some (JList (map JDict []))"
    "dict_get ?a (u ''suggestions'') = Some (JList [])"
    "dict_get ?a (u ''automatic_fixes'') = Some (JList (map JDict []))"
    "dict_get ?a (u ''docs_updates'') = Some (JList [])"
    by (simp_all add: wrap_raw_fields)
  have e: "get_or ?a (u ''effort_estimate'') JNull = JNull"
    "get_or ?a (u ''summary'') (JStr []) = raw"
    by (simp_all add: get_or_def wrap_raw_fields)
  show ?thesis
    using format_analysis_sections [OF g, of L] e by (simp add: py_bool_def)
qed

lemma undecodable_completion_answered:
  assumes "py_strip (code req) \<noteq> []"
    and "request_pdf req \<noteq> Some True"
    and "remote E (build_prompt (code req) (language req)) = Completion raw"
    and "py_json_loads raw = None"
  shows "fst (analyze_code E req w) =
       json_response (lib E) (JDict
         [(u ''formatted_analysis'', JStr (h_summary @ py_str (lib E) raw @ [10, 10])),
          (u ''raw'', JDict (wrap_raw raw (language req)))])"
  using assms
  by (simp add: analyze_code_def analysed_def call_llm_def parse_response_def
      parse_decoded_def undecodable_formatted respond_def Let_def)

section \<open>Writing the text file\<close>

lemma surrogate_fails: "json_loads [55296] = None"
  by (simp add: json_eval)

lemma demo_text_path:
  "py_replace (u ''.pdf'') (u ''.txt'') (path_join (u ''/tmp'') (u ''analysis_'' @ dec_nat 4242 @ u ''.pdf''))
     = u ''/tmp/analysis_4242.txt''"
proof -
  have "dec_nat 4242 = u ''4242''"
    by (simp add: dec_nat.simps [of 4242] dec_nat.simps [of 424] dec_nat.simps [of 42]
        dec_nat.simps [of 4] u_def)
  then show ?thesis by (simp add: path_join_def str_eval)
qed

text \<open>
  Claim C8 (a defect of the code). Two requests ask for a PDF with code that is not blank,
  and the PDF library is missing. In the first, the model server's completion is a lone
  surrogate (the JSON text \<^verbatim>\<open>"\ud800"\<close> in its reply): it does not decode, becomes the
  summary, and is part of the formatted text; the text file is opened, but encoding the text
  for line 192 raises \<^verbatim>\<open>UnicodeEncodeError\<close>, which nothing catches. The file is left
  empty and the request ends with status 500. In the second, the completion is the one of
  claim C1: the formatter raises before any file is written.
\<close>

theorem text_fallback_unhandled:
  "\<not> pdf_available (demo_env (Completion (JStr [55296])) False)
   \<and> fst (analyze_code (demo_env (Completion (JStr [55296])) False)
         \<lparr>code = u ''x = 1'', language = Some (u ''python''), request_pdf = Some True\<rparr>
         no_effects) = Unhandled UnicodeEncodeError
   \<and> files (snd (analyze_code (demo_env (Completion (JStr [55296])) False)
         \<lparr>code = u ''x = 1'', language = Some (u ''python''), request_pdf = Some True\<rparr>
         no_effects)) (u ''/tmp/analysis_4242.txt'') = Some (Text_of [])
   \<and> status_code (fst (analyze_code (demo_env (Completion (JStr [55296])) False)
         \<lparr>code = u ''x = 1'', language = Some (u ''python''), request_pdf = Some True\<rparr>
         no_effects)) = 500
   \<and> analyze_code (demo_env (Completion (JStr bad_completion)) False)
         \<lparr>code = u ''x = 1'', language = Some (u ''python''), request_pdf = Some True\<rparr>
         no_effects
       = (Unhandled AttributeError,
          no_effects\<lparr>posted := [build_prompt (u ''x = 1'') (Some (u ''python''))]\<rparr>)"
proof -
  let ?E = "demo_env (Completion (JStr [55296])) False"
  let ?req = "\<lparr>code = u ''x = 1'', language = Some (u ''python''), request_pdf = Some True\<rparr>"
  have nb: "py_strip (u ''x = 1'') \<noteq> []"
    by (simp add: py_strip_blank py_isspace_def u_def)
  have ne: "\<not> encodable (h_summary @ [55296] @ [10, 10])"
    by (simp add: encodable_simps is_surrogate_def)
  have r: "analyze_code ?E ?req no_effects =
      (Unhandled UnicodeEncodeError,
       no_effects\<lparr>posted := [build_prompt (u ''x = 1'') (Some (u ''python''))],
                  files := (\<lambda>p. None)(u ''/tmp/analysis_4242.txt'' \<mapsto> Text_of [])\<rparr>)"
    using nb ne
    by (simp add: analyze_code_def analysed_def call_llm_def demo_env_def parse_response_def
        py_json_loads_def surrogate_fails parse_decoded_def undecodable_formatted py_str_def
        respond_def demo_text_path no_effects_def)
  have s: "analyze_code (demo_env (Completion (JStr bad_completion)) False) ?req no_effects
       = (Unhandled AttributeError,
          no_effects\<lparr>posted := [build_prompt (u ''x = 1'') (Some (u ''python''))]\<rparr>)"
    using nb
    by (simp add: analyze_code_def analysed_def call_llm_def demo_env_def bad_parsed bad_format
        no_effects_def)
  show ?thesis
    unfolding r s by (simp add: demo_env_def status_code_def)
qed

end
